theory Spec2Isabelle
  imports
    Main
    "HOL-Library.Word"
    "HOL-Library.Multiset"
    "HOL-Library.Char_ord"
    "HOL-Library.List_Lexorder"
begin

section \<open>Shared data model\<close>

text \<open>
  Go's \<open>int64\<close> (and \<open>int\<close> on 64-bit platforms) is modelled as \<open>int\<close> with the
  two's-complement wrap-around written out: every addition of the source goes through
  \<open>wrap64\<close>.
\<close>

definition wrap64 :: "int \<Rightarrow> int" where
  "wrap64 x = (x + 2 ^ 63) mod 2 ^ 64 - 2 ^ 63"

definition in_int64 :: "int \<Rightarrow> bool" where
  "in_int64 x \<longleftrightarrow> - (2 ^ 63) \<le> x \<and> x < 2 ^ 63"

section \<open>Uploader: cancellation and parallelism (snapshotfs)\<close>

text \<open>The reasons why a snapshot is incomplete (constants of the uploader).\<close>

definition IncompleteReasonCheckpoint :: string where
  "IncompleteReasonCheckpoint = ''checkpoint''"

definition IncompleteReasonCanceled :: string where
  "IncompleteReasonCanceled = ''canceled''"

definition IncompleteReasonLimitReached :: string where
  "IncompleteReasonLimitReached = ''limit reached''"

text \<open>
  The fields of \<open>Uploader\<close> that \<open>incompleteReason\<close>, \<open>IsCanceled\<close>, \<open>Cancel\<close>,
  \<open>copyWithProgress\<close> and \<open>effectiveParallelFileReads\<close> read or write.
\<close>

record Uploader =
  totalWrittenBytes :: int
  MaxUploadBytes :: int
  ParallelUploads :: int
  canceled :: int

definition incompleteReason :: "Uploader \<Rightarrow> string" where
  "incompleteReason u =
     (if canceled u \<noteq> 0 then IncompleteReasonCanceled
      else if MaxUploadBytes u > 0 \<and> totalWrittenBytes u > MaxUploadBytes u
        then IncompleteReasonLimitReached
      else [])"

definition IsCanceled :: "Uploader \<Rightarrow> bool" where
  "IsCanceled u \<longleftrightarrow> incompleteReason u \<noteq> []"

text \<open>\<open>Cancel\<close> stores 1 into the \<open>canceled\<close> flag.\<close>

definition Cancel :: "Uploader \<Rightarrow> Uploader" where
  "Cancel u = u\<lparr>canceled := 1\<rparr>"

text \<open>
  The two things that happen to the cancellation state while an upload runs: a call of
  \<open>Cancel\<close> (from the user, or from \<open>reportErrorAndMaybeCancel\<close> under \<open>FailFast\<close>), and
  the atomic addition of \<open>wroteBytes\<close> to \<open>totalWrittenBytes\<close> in \<open>copyWithProgress\<close>.
\<close>

datatype upload_event = EvCancel | EvWritten int

fun upload_step :: "Uploader \<Rightarrow> upload_event \<Rightarrow> Uploader" where
  "upload_step u EvCancel = Cancel u"
| "upload_step u (EvWritten wroteBytes) =
     u\<lparr>totalWrittenBytes := wrap64 (totalWrittenBytes u + wroteBytes)\<rparr>"

text \<open>
  The part of \<open>Upload\<close> that decides the manifest's \<open>IncompleteReason\<close>: it stores 0 into
  \<open>totalWrittenBytes\<close> (the \<open>canceled\<close> flag is left as it is), the upload runs, and on
  success \<open>s.IncompleteReason = u.incompleteReason()\<close> is evaluated once, at the end.
\<close>

definition Upload_start :: "Uploader \<Rightarrow> Uploader" where
  "Upload_start u = u\<lparr>totalWrittenBytes := 0\<rparr>"

definition Upload_final :: "Uploader \<Rightarrow> upload_event list \<Rightarrow> Uploader" where
  "Upload_final u evs = foldl upload_step (Upload_start u) evs"

definition Upload_IncompleteReason :: "Uploader \<Rightarrow> upload_event list \<Rightarrow> string" where
  "Upload_IncompleteReason u evs = incompleteReason (Upload_final u evs)"

text \<open>
  The specification's notion, in its own words: "the first reason observed is remembered".
  \<open>first_reason_observed\<close> is the reason \<open>incompleteReason\<close> reports at the first moment
  of the run at which the upload counts as canceled (the empty string if there is none).
\<close>

fun first_reason_from :: "Uploader \<Rightarrow> upload_event list \<Rightarrow> string" where
  "first_reason_from u [] = incompleteReason u"
| "first_reason_from u (e # es) =
     (if IsCanceled u then incompleteReason u else first_reason_from (upload_step u e) es)"

definition first_reason_observed :: "Uploader \<Rightarrow> upload_event list \<Rightarrow> string" where
  "first_reason_observed u evs = first_reason_from (Upload_start u) evs"

text \<open>
  \<open>policy.OptionalInt\<close> and its method \<open>OrDefault\<close> are not among the sources.
  Modelled from the spec: \<open>UploadPolicy.MaxParallelFileReads\<close> is an optional policy
  setting; \<open>OrDefault def\<close> is the setting when the policy has one and \<open>def\<close> when it
  has none.
\<close>

definition OrDefault :: "int option \<Rightarrow> int \<Rightarrow> int" where
  "OrDefault b def = (case b of None \<Rightarrow> def | Some v \<Rightarrow> v)"

text \<open>
  \<open>effectiveParallelFileReads\<close>; the policy's \<open>MaxParallelFileReads\<close> and the value of
  \<open>runtime.NumCPU()\<close> are arguments.
\<close>

definition effectiveParallelFileReads :: "Uploader \<Rightarrow> int option \<Rightarrow> int \<Rightarrow> int" where
  "effectiveParallelFileReads u MaxParallelFileReads NumCPU =
     (let p = ParallelUploads u;
          mx = OrDefault MaxParallelFileReads NumCPU
      in if p < 1 \<or> p > mx then mx else p)"

text \<open>\<open>Upload\<close> creates the pool with \<open>workshare.NewPool(parallel - 1)\<close>.\<close>

definition Upload_workerPool :: "Uploader \<Rightarrow> int option \<Rightarrow> int \<Rightarrow> int" where
  "Upload_workerPool u MaxParallelFileReads NumCPU =
     wrap64 (effectiveParallelFileReads u MaxParallelFileReads NumCPU - 1)"

section \<open>Pack index entries (package index)\<close>

text \<open>
  Content IDs (\<open>index.ID\<close>) and blob IDs (\<open>blob.ID\<close>) are Go strings. A \<open>time.Time\<close> is
  modelled as an instant on the integer line, in nanoseconds since the Unix epoch;
  \<open>time.Unix sec nsec\<close> and \<open>After\<close> are then as follows.
\<close>

type_synonym ID = string
type_synonym blobID = string
type_synonym time = int
type_synonym byte = "8 word"

definition time_Unix :: "int \<Rightarrow> int \<Rightarrow> time" where
  "time_Unix sec nsec = sec * 1000000000 + nsec"

definition After :: "time \<Rightarrow> time \<Rightarrow> bool" where
  "After t u \<longleftrightarrow> t > u"

text \<open>
  Go errors. \<open>Errorf\<close> is a fresh error with a message, \<open>Wrapped e msg\<close> is
  \<open>errors.Wrap(e, msg)\<close> for a non-nil \<open>e\<close>; \<open>errors.Wrap(nil, msg)\<close> is \<open>nil\<close>.
\<close>

datatype error = ErrContentNotFound | Errorf string | Wrapped error string

definition Wrap :: "error option \<Rightarrow> string \<Rightarrow> error option" where
  "Wrap err msg = (case err of None \<Rightarrow> None | Some e \<Rightarrow> Some (Wrapped e msg))"

text \<open>
  \<open>index.Info\<close> is an interface; a value of it is the record of what its accessors
  return. \<open>Timestamp\<close> is \<open>time.Unix(GetTimestampSeconds(), 0)\<close>.
\<close>

record Info =
  GetContentID :: ID
  GetTimestampSeconds :: int
  GetPackBlobID :: blobID
  GetPackOffset :: "32 word"
  GetOriginalLength :: "32 word"
  GetPackedLength :: "32 word"
  GetDeleted :: bool
  GetFormatVersion :: byte
  GetCompressionHeaderID :: "32 word"
  GetEncryptionKeyID :: byte

definition Timestamp :: "Info \<Rightarrow> time" where
  "Timestamp i = time_Unix (GetTimestampSeconds i) 0"

text \<open>
  \<open>index.Index\<close> is an interface too. \<open>GetInfo\<close> returns Go's pair \<open>(Info, error)\<close>, each
  component possibly \<open>nil\<close>; \<open>Iterate_AllIDs\<close> is the outcome of
  \<open>Iterate(index.AllIDs, cb)\<close> for a callback that never fails: the entries handed to the
  callback, or the error of the iteration.
\<close>

record Index =
  GetInfo :: "ID \<Rightarrow> Info option \<times> error option"
  ApproximateCount :: int
  Iterate_AllIDs :: "error + Info list"

text \<open>
  The tests write entries as \<open>InfoStruct\<close> literals that set the content ID, the
  timestamp, the pack blob ID, the pack offset and the deleted flag, and leave every other
  field zero.
\<close>

definition InfoStruct :: "ID \<Rightarrow> int \<Rightarrow> blobID \<Rightarrow> 32 word \<Rightarrow> bool \<Rightarrow> Info" where
  "InfoStruct cid ts pack off del =
     \<lparr>GetContentID = cid, GetTimestampSeconds = ts, GetPackBlobID = pack,
      GetPackOffset = off, GetOriginalLength = 0, GetPackedLength = 0, GetDeleted = del,
      GetFormatVersion = 0, GetCompressionHeaderID = 0, GetEncryptionKeyID = 0\<rparr>"

section \<open>Building a version 2 pack index (package index)\<close>

definition v2MaxFormatCount :: int where "v2MaxFormatCount = 255"
definition v2MaxUniquePackIDCount :: int where "v2MaxUniquePackIDCount = 2 ^ 24"
definition v2MaxShortPackIDCount :: int where "v2MaxShortPackIDCount = 2 ^ 16"
definition v2MaxContentLength :: "32 word" where "v2MaxContentLength = 2 ^ 28"
definition v2MaxShortContentLength :: "32 word" where "v2MaxShortContentLength = 2 ^ 24"
definition v2MaxPackOffset :: "32 word" where "v2MaxPackOffset = 2 ^ 30"
definition v2EntryOffsetFormatID :: int where "v2EntryOffsetFormatID = 16"
definition v2EntryOffsetFormatIDEnd :: int where "v2EntryOffsetFormatIDEnd = 17"
definition v2EntryOffsetExtendedPackBlobIDEnd :: int where
  "v2EntryOffsetExtendedPackBlobIDEnd = 18"
definition v2EntryOffsetHighLengthBitsEnd :: int where "v2EntryOffsetHighLengthBitsEnd = 19"

record indexV2FormatInfo =
  compressionHeaderID :: "32 word"
  formatVersion :: byte
  encryptionKeyID :: byte

definition indexV2FormatInfoFromInfo :: "Info \<Rightarrow> indexV2FormatInfo" where
  "indexV2FormatInfoFromInfo v =
     \<lparr>compressionHeaderID = GetCompressionHeaderID v,
      formatVersion = GetFormatVersion v,
      encryptionKeyID = GetEncryptionKeyID v\<rparr>"

text \<open>
  The two Go maps of the builder are maps \<open>'k \<rightharpoonup> 'v\<close>; \<open>len(result)\<close> is the number of
  keys. \<open>byte(len(result))\<close> keeps the low 8 bits.
\<close>

definition buildUniqueFormatToIndexMap :: "Info list \<Rightarrow> (indexV2FormatInfo \<rightharpoonup> byte)" where
  "buildUniqueFormatToIndexMap sortedInfos =
     foldl (\<lambda>result v.
        let key = indexV2FormatInfoFromInfo v
        in if result key = None then result(key \<mapsto> word_of_nat (card (dom result)))
           else result)
       Map.empty sortedInfos"

definition buildPackIDToIndexMap :: "Info list \<Rightarrow> (blobID \<rightharpoonup> int)" where
  "buildPackIDToIndexMap sortedInfos =
     foldl (\<lambda>result v.
        let blobID = GetPackBlobID v
        in if result blobID = None then result(blobID \<mapsto> int (card (dom result)))
           else result)
       Map.empty sortedInfos"

text \<open>The body of the loop of \<open>maxContentLengths\<close>, and the loop.\<close>

definition maxContentLengths_step ::
  "32 word \<times> 32 word \<times> 32 word \<Rightarrow> Info \<Rightarrow> 32 word \<times> 32 word \<times> 32 word" where
  "maxContentLengths_step =
     (\<lambda>(maxPackedLength, maxOriginalLength, maxPackOffset) v.
        (if GetPackedLength v > maxPackedLength then GetPackedLength v else maxPackedLength,
         if GetOriginalLength v > maxOriginalLength then GetOriginalLength v
         else maxOriginalLength,
         if GetPackOffset v > maxPackOffset then GetPackOffset v else maxPackOffset))"

definition maxContentLengths :: "Info list \<Rightarrow> 32 word \<times> 32 word \<times> 32 word" where
  "maxContentLengths sortedInfos = foldl maxContentLengths_step (0, 0, 0) sortedInfos"

record indexBuilderV2 =
  packBlobIDOffsets :: "blobID \<rightharpoonup> 32 word"
  entryCount :: int
  keyLength :: int
  entrySize :: int
  extraDataOffset :: "32 word"
  uniqueFormatInfo2Index :: "indexV2FormatInfo \<rightharpoonup> byte"
  packID2Index :: "blobID \<rightharpoonup> int"
  baseTimestamp :: int

text \<open>
  \<open>newIndexBuilderV2\<close>. The encoder \<open>contentIDToBytes\<close> is not among the sources and is
  an argument; it only decides the key length.
\<close>

definition newIndexBuilderV2 ::
  "(ID \<Rightarrow> byte list) \<Rightarrow> Info list \<Rightarrow> error + indexBuilderV2" where
  "newIndexBuilderV2 contentIDToBytes sortedInfos =
    (let entrySize0 = v2EntryOffsetFormatID;
         uniqueFormat2Index = buildUniqueFormatToIndexMap sortedInfos
     in if int (card (dom uniqueFormat2Index)) > v2MaxFormatCount
        then Inl (Errorf ''unsupported - too many unique formats'')
        else
     let entrySize1 = (if int (card (dom uniqueFormat2Index)) > 1
                       then max entrySize0 v2EntryOffsetFormatIDEnd else entrySize0);
         packID2Index = buildPackIDToIndexMap sortedInfos
     in if int (card (dom packID2Index)) > v2MaxUniquePackIDCount
        then Inl (Errorf ''unsupported - too many unique pack IDs'')
        else
     let entrySize2 = (if int (card (dom packID2Index)) > v2MaxShortPackIDCount
                       then max entrySize1 v2EntryOffsetExtendedPackBlobIDEnd else entrySize1)
     in case maxContentLengths sortedInfos of
        (maxPackedLen, maxOriginalLength, maxPackOffset) \<Rightarrow>
        if maxPackedLen \<ge> v2MaxContentLength \<or> maxOriginalLength \<ge> v2MaxContentLength
        then Inl (Errorf ''maximum content length is too high'')
        else
     let entrySize3 = (if maxPackedLen \<ge> v2MaxShortContentLength
                          \<or> maxOriginalLength \<ge> v2MaxShortContentLength
                       then max entrySize2 v2EntryOffsetHighLengthBitsEnd else entrySize2)
     in if maxPackOffset \<ge> v2MaxPackOffset
        then Inl (Errorf ''pack offset is too high'')
        else
     let keyLength = (case sortedInfos of [] \<Rightarrow> - 1
                      | v # _ \<Rightarrow> int (length (contentIDToBytes (GetContentID v))))
     in Inr \<lparr>packBlobIDOffsets = Map.empty,
             entryCount = int (length sortedInfos),
             keyLength = keyLength,
             entrySize = entrySize3,
             extraDataOffset = 0,
             uniqueFormatInfo2Index = uniqueFormat2Index,
             packID2Index = packID2Index,
             baseTimestamp = 0\<rparr>)"

text \<open>
  \<open>buildV2\<close> up to its first write: \<open>newIndexBuilderV2\<close> runs before the writer is
  created, and its error is returned at once. \<open>output\<close> is what the \<open>io.Writer\<close> has
  received; the writing stage that follows (header, entries, pack and format tables,
  extra data) is the argument \<open>write_index\<close>.
\<close>

definition buildV2 ::
  "(ID \<Rightarrow> byte list) \<Rightarrow> (indexBuilderV2 \<Rightarrow> Info list \<Rightarrow> byte list \<Rightarrow> error option \<times> byte list)
     \<Rightarrow> Info list \<Rightarrow> byte list \<Rightarrow> error option \<times> byte list" where
  "buildV2 contentIDToBytes write_index sortedInfos output =
     (case newIndexBuilderV2 contentIDToBytes sortedInfos of
        Inl err \<Rightarrow> (Some err, output)
      | Inr b2 \<Rightarrow> write_index b2 sortedInfos output)"

section \<open>Committed content index (package content)\<close>

definition smallIndexEntryCountThreshold :: int where
  "smallIndexEntryCountThreshold = 100"

record committedContentIndex =
  rev :: int
  deletionWatermark :: time
  inUse :: "blobID \<rightharpoonup> Index"
  merged :: "Index list"

definition shouldIgnore :: "Info \<Rightarrow> time \<Rightarrow> bool" where
  "shouldIgnore i watermark =
     (if \<not> GetDeleted i then False else \<not> After (Timestamp i) watermark)"

text \<open>
  \<open>getContent\<close>. The method \<open>GetInfo\<close> of \<open>index.Merged\<close> that it reads through is an
  argument, \<open>Merged_GetInfo\<close>.
\<close>

definition getContent ::
  "(Index list \<Rightarrow> ID \<Rightarrow> Info option \<times> error option) \<Rightarrow> committedContentIndex \<Rightarrow> ID
     \<Rightarrow> error + Info" where
  "getContent Merged_GetInfo c contentID =
     (case Merged_GetInfo (merged c) contentID of
        (Some info, err) \<Rightarrow>
          if shouldIgnore info (deletionWatermark c) then Inl ErrContentNotFound
          else Inr info
      | (None, None) \<Rightarrow> Inl ErrContentNotFound
      | (None, Some err) \<Rightarrow> Inl (Wrapped err ''error getting content info from index''))"

text \<open>
  What the committed content index needs from outside: the cache's \<open>openIndex\<close>, and the
  index builder and reader. \<open>Builder_Build infos version\<close> stands for adding \<open>infos\<close> to a
  fresh \<open>index.Builder\<close> one by one and building it with the given index version;
  \<open>index_Open\<close> opens the built bytes. None of the three is among the sources.
\<close>

record index_env =
  cache_openIndex :: "blobID \<Rightarrow> error + Index"
  Builder_Build :: "Info list \<Rightarrow> int \<Rightarrow> error + byte list"
  index_Open :: "byte list \<Rightarrow> 32 word \<Rightarrow> error + Index"
  indexVersion :: int
  v1PerContentOverhead :: "32 word"

definition indexFilesChanged :: "committedContentIndex \<Rightarrow> blobID list \<Rightarrow> bool" where
  "indexFilesChanged c indexFiles =
     (if int (length indexFiles) \<noteq> int (card (dom (inUse c))) then True
      else list_ex (\<lambda>ndx. inUse c ndx = None) indexFiles)"

text \<open>The loop of \<open>combineSmallIndexes\<close> that adds the entries of every small index.\<close>

fun collect_toMerge :: "Index list \<Rightarrow> Info list \<Rightarrow> error + Info list" where
  "collect_toMerge [] b = Inr b"
| "collect_toMerge (ndx # rest) b =
     (case Iterate_AllIDs ndx of
        Inl err \<Rightarrow> Inl (Wrapped err ''unable to iterate index entries'')
      | Inr infos \<Rightarrow> collect_toMerge rest (b @ infos))"

definition combineSmallIndexes :: "index_env \<Rightarrow> Index list \<Rightarrow> error + Index list" where
  "combineSmallIndexes env m =
     (let toMerge = filter (\<lambda>ndx. ApproximateCount ndx < smallIndexEntryCountThreshold) m;
          toKeep = filter (\<lambda>ndx. \<not> ApproximateCount ndx < smallIndexEntryCountThreshold) m
      in if length toMerge \<le> 1 then Inr m
         else case collect_toMerge toMerge [] of
           Inl err \<Rightarrow> Inl err
         | Inr b \<Rightarrow>
           (case Builder_Build env b (indexVersion env) of
              Inl err \<Rightarrow> Inl (Wrapped err ''error building combined in-memory index'')
            | Inr buf \<Rightarrow>
              (case index_Open env buf (v1PerContentOverhead env) of
                 Inl err \<Rightarrow> Inl (Wrapped err ''error opening combined in-memory index'')
               | Inr combined \<Rightarrow> Inr (toKeep @ [combined]))))"

text \<open>The loop of \<open>merge\<close> that opens every requested index.\<close>

fun merge_open ::
  "index_env \<Rightarrow> blobID list \<Rightarrow> Index list \<Rightarrow> (blobID \<rightharpoonup> Index)
     \<Rightarrow> error + Index list \<times> (blobID \<rightharpoonup> Index)" where
  "merge_open env [] merged0 used = Inr (merged0, used)"
| "merge_open env (e # rest) merged0 used =
     (case cache_openIndex env e of
        Inl err \<Rightarrow> Inl (Wrapped err ''unable to open pack index'')
      | Inr ndx \<Rightarrow> merge_open env rest (merged0 @ [ndx]) (used(e \<mapsto> ndx)))"

definition merge ::
  "index_env \<Rightarrow> blobID list \<Rightarrow> error + Index list \<times> (blobID \<rightharpoonup> Index)" where
  "merge env indexFiles =
     (case merge_open env indexFiles [] Map.empty of
        Inl err \<Rightarrow> Inl err
      | Inr (merged0, used) \<Rightarrow>
        (case combineSmallIndexes env merged0 of
           Inl err \<Rightarrow> Inl (Wrapped err ''unable to combine small indexes'')
         | Inr mergedAndCombined \<Rightarrow> Inr (mergedAndCombined, used)))"

text \<open>
  \<open>use\<close>, under the mutex: the result is the returned error and the state of the
  committed content index afterwards. The cache's \<open>expireUnused\<close> at the end changes
  only the cache, and its error is logged, not returned.
\<close>

definition use ::
  "index_env \<Rightarrow> committedContentIndex \<Rightarrow> blobID list \<Rightarrow> time
     \<Rightarrow> error option \<times> committedContentIndex" where
  "use env c indexFiles ignoreDeletedBefore =
     (let c1 = c\<lparr>deletionWatermark := ignoreDeletedBefore\<rparr>
      in if \<not> indexFilesChanged c1 indexFiles then (None, c1)
         else case merge env indexFiles of
           Inl err \<Rightarrow> (Some err, c1)
         | Inr (mergedAndCombined, newInUse) \<Rightarrow>
             (None, c1\<lparr>rev := wrap64 (rev c1 + 1),
                       merged := mergedAndCombined,
                       inUse := newInUse\<rparr>))"

section \<open>Merged index (package index)\<close>

text \<open>
  Modelled from the spec: \<open>index.Merged\<close> and its \<open>GetInfo\<close> (file \<open>merged.go\<close>) are not
  among the sources, only their tests are. The spec: "A list of underlying indexes
  queried as one. For \<open>GetInfo\<close>: probe every index; if multiple return an entry for the
  same content ID, pick by deterministic precedence: (1) latest timestamp wins; (2) on
  tie, non-deleted wins over deleted; (3) on further tie, lexicographically greatest
  pack blob ID wins." \<open>takes_precedence a b\<close> says that \<open>a\<close> wins over \<open>b\<close> by these three
  rules. An error of an underlying index ends the lookup and is returned without an
  entry, as the test \<open>TestMergedGetInfoError\<close> requires.
\<close>

definition takes_precedence :: "Info \<Rightarrow> Info \<Rightarrow> bool" where
  "takes_precedence a b =
     (if GetTimestampSeconds a \<noteq> GetTimestampSeconds b
        then GetTimestampSeconds a > GetTimestampSeconds b
      else if GetDeleted a \<noteq> GetDeleted b then \<not> GetDeleted a
      else GetPackBlobID a > GetPackBlobID b)"

fun Merged_GetInfo_from :: "Index list \<Rightarrow> ID \<Rightarrow> Info option \<Rightarrow> Info option \<times> error option" where
  "Merged_GetInfo_from [] k best = (best, None)"
| "Merged_GetInfo_from (ndx # m) k best =
     (case GetInfo ndx k of
        (i, Some err) \<Rightarrow> (None, Some (Wrapped err ''error getting id from index shard''))
      | (None, None) \<Rightarrow> Merged_GetInfo_from m k best
      | (Some i, None) \<Rightarrow>
          Merged_GetInfo_from m k
            (case best of
               None \<Rightarrow> Some i
             | Some b \<Rightarrow> if takes_precedence i b then Some i else Some b))"

definition Merged_GetInfo :: "Index list \<Rightarrow> ID \<Rightarrow> Info option \<times> error option" where
  "Merged_GetInfo m k = Merged_GetInfo_from m k None"

text \<open>The entries that the underlying indexes hold for a content ID.\<close>

definition candidates :: "Index list \<Rightarrow> ID \<Rightarrow> Info list" where
  "candidates m k = List.map_filter (\<lambda>ndx. fst (GetInfo ndx k)) m"

text \<open>
  The three rules, spelled out for one candidate \<open>c\<close> against the chosen entry \<open>r\<close>:
  \<open>c\<close> is not newer; at the same timestamp \<open>r\<close> is deleted only if \<open>c\<close> is; and at the same
  timestamp and deleted flag the pack blob ID of \<open>c\<close> is not greater.
\<close>

definition not_preferred_to :: "Info \<Rightarrow> Info \<Rightarrow> bool" where
  "not_preferred_to c r \<longleftrightarrow>
     GetTimestampSeconds c \<le> GetTimestampSeconds r
     \<and> (GetTimestampSeconds c = GetTimestampSeconds r \<longrightarrow>
          (GetDeleted r \<longrightarrow> GetDeleted c)
          \<and> (GetDeleted c = GetDeleted r \<longrightarrow> GetPackBlobID c \<le> GetPackBlobID r))"

text \<open>
  The helper \<open>indexWithItems\<close> of the tests builds an index from entries; here it is the
  index that answers \<open>GetInfo\<close> from these entries. The three indexes are those of
  \<open>TestMergedIndexIsConsistent\<close>.
\<close>

definition indexWithItems :: "Info list \<Rightarrow> Index" where
  "indexWithItems items =
     \<lparr>GetInfo = (\<lambda>k. (find (\<lambda>i. GetContentID i = k) items, None)),
      ApproximateCount = int (length items),
      Iterate_AllIDs = Inr items\<rparr>"

definition test_i1 :: Index where
  "test_i1 = indexWithItems
     [InfoStruct ''aabbcc'' 1 ''xx'' 11 False,
      InfoStruct ''bbccdd'' 1 ''xx'' 11 False,
      InfoStruct ''ccddee'' 1 ''ff'' 11 True]"

definition test_i2 :: Index where
  "test_i2 = indexWithItems
     [InfoStruct ''aabbcc'' 1 ''yy'' 33 False,
      InfoStruct ''bbccdd'' 1 ''yy'' 11 True,
      InfoStruct ''ccddee'' 1 ''gg'' 11 True]"

definition test_i3 :: Index where
  "test_i3 = indexWithItems
     [InfoStruct ''aabbcc'' 1 ''zz'' 22 False,
      InfoStruct ''bbccdd'' 1 ''zz'' 11 True,
      InfoStruct ''ccddee'' 1 ''hh'' 11 True]"

section \<open>Snapshot garbage collector (package snapshotgc)\<close>

text \<open>
  \<open>t.Sub(u)\<close> is the duration \<open>t - u\<close> in nanoseconds, an \<open>int64\<close>: Go returns the
  largest (smallest) duration when the difference does not fit.
\<close>

definition time_Sub :: "time \<Rightarrow> time \<Rightarrow> int" where
  "time_Sub t u =
     (let d = t - u
      in if d > 2 ^ 63 - 1 then 2 ^ 63 - 1 else if d < - (2 ^ 63) then - (2 ^ 63) else d)"

text \<open>
  \<open>stats.CountSum\<close> is not among the sources. Modelled from the spec: counters are
  reported with (count, total packed bytes) per bucket; \<open>Add v\<close> counts one more item and
  adds \<open>v\<close> to the \<open>int64\<close> sum.
\<close>

record CountSum =
  cs_count :: nat
  cs_sum :: int

definition CountSum_Add :: "CountSum \<Rightarrow> int \<Rightarrow> CountSum" where
  "CountSum_Add s v = \<lparr>cs_count = cs_count s + 1, cs_sum = wrap64 (cs_sum s + v)\<rparr>"

text \<open>
  What the collector needs from the repository and is not among the sources: the prefix
  of a content ID (\<open>ID.Prefix\<close>), the prefix of manifest contents
  (\<open>manifest.ContentPrefix\<close>), and whether a call of \<open>UndeleteContent\<close>, of
  \<open>DeleteContent\<close> or the \<open>n\<close>-th call of \<open>Flush\<close> fails.
\<close>

record gc_env =
  Prefix :: "ID \<Rightarrow> ID"
  manifest_ContentPrefix :: ID
  UndeleteContent_err :: "ID \<Rightarrow> error option"
  DeleteContent_err :: "ID \<Rightarrow> error option"
  Flush_err :: "nat \<Rightarrow> error option"

text \<open>
  The state of a run: the five counters of \<open>runInternal\<close> (copied into \<open>Stats\<close> at the
  end), the deleted mark of every content in the repository, and the calls made to the
  content manager so far.
\<close>

record gc_state =
  st_unused :: CountSum
  st_inUse :: CountSum
  st_system :: CountSum
  st_tooRecent :: CountSum
  st_undeleted :: CountSum
  repo_deleted :: "ID \<Rightarrow> bool"
  undeleteCalls :: "ID list"
  deleteCalls :: "ID list"
  flushCalls :: nat

definition gc_init :: "(ID \<Rightarrow> bool) \<Rightarrow> gc_state" where
  "gc_init deleted0 =
     \<lparr>st_unused = \<lparr>cs_count = 0, cs_sum = 0\<rparr>, st_inUse = \<lparr>cs_count = 0, cs_sum = 0\<rparr>,
      st_system = \<lparr>cs_count = 0, cs_sum = 0\<rparr>, st_tooRecent = \<lparr>cs_count = 0, cs_sum = 0\<rparr>,
      st_undeleted = \<lparr>cs_count = 0, cs_sum = 0\<rparr>,
      repo_deleted = deleted0, undeleteCalls = [], deleteCalls = [], flushCalls = 0\<rparr>"

text \<open>
  The content manager's \<open>UndeleteContent\<close> and \<open>DeleteContent\<close> are not among the
  sources. Modelled from the spec: a successful \<open>UndeleteContent(id)\<close> leaves the content
  not marked deleted, a successful \<open>DeleteContent(id)\<close> leaves it marked deleted; a
  failed call changes no mark. Every call is recorded.
\<close>

definition UndeleteContent :: "gc_env \<Rightarrow> gc_state \<Rightarrow> ID \<Rightarrow> error option \<times> gc_state" where
  "UndeleteContent env st cid =
     (case UndeleteContent_err env cid of
        Some err \<Rightarrow> (Some err, st\<lparr>undeleteCalls := undeleteCalls st @ [cid]\<rparr>)
      | None \<Rightarrow> (None, st\<lparr>undeleteCalls := undeleteCalls st @ [cid],
                           repo_deleted := (repo_deleted st)(cid := False)\<rparr>))"

definition DeleteContent :: "gc_env \<Rightarrow> gc_state \<Rightarrow> ID \<Rightarrow> error option \<times> gc_state" where
  "DeleteContent env st cid =
     (case DeleteContent_err env cid of
        Some err \<Rightarrow> (Some err, st\<lparr>deleteCalls := deleteCalls st @ [cid]\<rparr>)
      | None \<Rightarrow> (None, st\<lparr>deleteCalls := deleteCalls st @ [cid],
                           repo_deleted := (repo_deleted st)(cid := True)\<rparr>))"

definition Flush :: "gc_env \<Rightarrow> gc_state \<Rightarrow> error option \<times> gc_state" where
  "Flush env st = (Flush_err env (flushCalls st), st\<lparr>flushCalls := flushCalls st + 1\<rparr>)"

text \<open>
  The callback that \<open>runInternal\<close> hands to \<open>IterateContents\<close>. Its argument is the
  content info \<open>ci\<close> together with \<open>now\<close>, the value \<open>rep.Time()\<close> has while \<open>ci\<close> is
  visited. \<open>used\<close> is the set of content IDs stored by the mark phase.
\<close>

definition sweep_callback ::
  "gc_env \<Rightarrow> ID set \<Rightarrow> bool \<Rightarrow> int \<Rightarrow> gc_state \<Rightarrow> time \<times> Info \<Rightarrow> error option \<times> gc_state" where
  "sweep_callback env used gcDelete MinContentAgeSubjectToGC st x =
     (case x of (now, ci) \<Rightarrow>
      if manifest_ContentPrefix env = Prefix env (GetContentID ci) then
        (None, st\<lparr>st_system := CountSum_Add (st_system st) (uint (GetPackedLength ci))\<rparr>)
      else if GetContentID ci \<in> used then
        (if GetDeleted ci then
           (case UndeleteContent env st (GetContentID ci) of
              (Some err, st1) \<Rightarrow>
                (Some (Wrapped err ''Could not undelete referenced content''), st1)
            | (None, st1) \<Rightarrow>
                (None, st1\<lparr>st_undeleted :=
                              CountSum_Add (st_undeleted st1) (uint (GetPackedLength ci)),
                            st_inUse :=
                              CountSum_Add (st_inUse st1) (uint (GetPackedLength ci))\<rparr>))
         else
           (None, st\<lparr>st_inUse := CountSum_Add (st_inUse st) (uint (GetPackedLength ci))\<rparr>))
      else if time_Sub now (Timestamp ci) < MinContentAgeSubjectToGC then
        (None, st\<lparr>st_tooRecent :=
                     CountSum_Add (st_tooRecent st) (uint (GetPackedLength ci))\<rparr>)
      else
        (let st1 = st\<lparr>st_unused := CountSum_Add (st_unused st) (uint (GetPackedLength ci))\<rparr>;
             cnt = cs_count (st_unused st1)
         in case (if gcDelete then DeleteContent env st1 (GetContentID ci) else (None, st1)) of
              (Some err, st2) \<Rightarrow> (Some (Wrapped err ''error deleting content''), st2)
            | (None, st2) \<Rightarrow>
                if cnt mod 100000 = 0 \<and> gcDelete then
                  (case Flush env st2 of
                     (Some err, st3) \<Rightarrow> (Some (Wrapped err ''flush error''), st3)
                   | (None, st3) \<Rightarrow> (None, st3))
                else (None, st2)))"

text \<open>
  \<open>IterateContents\<close> of the content reader is not among the sources. Modelled from the
  spec: it invokes the callback on each content of the registry (deleted ones included)
  in order; a callback error short-circuits and propagates.
\<close>

fun IterateContents ::
  "(gc_state \<Rightarrow> 'a \<Rightarrow> error option \<times> gc_state) \<Rightarrow> 'a list \<Rightarrow> gc_state
     \<Rightarrow> error option \<times> gc_state" where
  "IterateContents cb [] st = (None, st)"
| "IterateContents cb (x # xs) st =
     (case cb st x of
        (Some err, st1) \<Rightarrow> (Some err, st1)
      | (None, st1) \<Rightarrow> IterateContents cb xs st1)"

text \<open>
  \<open>runInternal\<close>. \<open>mark\<close> is the outcome of \<open>findInUseContentIDs\<close> (an error, or the set
  \<open>used\<close>); \<open>contents\<close> is what the registry yields, each content with the repository
  time at its visit.
\<close>

definition runInternal ::
  "gc_env \<Rightarrow> error + ID set \<Rightarrow> bool \<Rightarrow> int \<Rightarrow> (time \<times> Info) list \<Rightarrow> gc_state
     \<Rightarrow> error option \<times> gc_state" where
  "runInternal env mark gcDelete MinContentAgeSubjectToGC contents st =
     (case mark of
        Inl err \<Rightarrow> (Some (Wrapped err ''unable to find in-use content ID''), st)
      | Inr used \<Rightarrow>
        (case IterateContents (sweep_callback env used gcDelete MinContentAgeSubjectToGC)
                contents st of
           (Some err, st1) \<Rightarrow> (Some (Wrapped err ''error iterating contents''), st1)
         | (None, st1) \<Rightarrow>
             if cs_count (st_unused st1) > 0 \<and> \<not> gcDelete
             then (Some (Errorf ''Not deleting because --delete flag was not set''), st1)
             else (case Flush env st1 of
                     (err, st2) \<Rightarrow> (Wrap err ''flush error'', st2))))"

text \<open>
  \<open>Run\<close> passes \<open>runInternal\<close> to \<open>maintenance.ReportRun\<close>, which hands back its error,
  and wraps that error.
\<close>

definition Run ::
  "gc_env \<Rightarrow> error + ID set \<Rightarrow> bool \<Rightarrow> int \<Rightarrow> (time \<times> Info) list \<Rightarrow> gc_state
     \<Rightarrow> error option \<times> gc_state" where
  "Run env mark gcDelete MinContentAgeSubjectToGC contents st =
     (case runInternal env mark gcDelete MinContentAgeSubjectToGC contents st of
        (err, st1) \<Rightarrow> (Wrap err ''error running snapshot gc'', st1))"

text \<open>
  The three conditions the sweep tests, by name: a content is a system content when its
  ID carries the manifest prefix; its age is the repository time at its visit minus its
  timestamp.
\<close>

definition is_system :: "gc_env \<Rightarrow> Info \<Rightarrow> bool" where
  "is_system env ci \<longleftrightarrow> manifest_ContentPrefix env = Prefix env (GetContentID ci)"

definition content_age :: "time \<times> Info \<Rightarrow> int" where
  "content_age x = time_Sub (fst x) (Timestamp (snd x))"

text \<open>
  A concrete repository environment for the examples: a content ID of odd length has its
  first character as prefix, manifests have prefix \<open>m\<close>, and no call fails.
\<close>

definition example_gc_env :: gc_env where
  "example_gc_env =
     \<lparr>Prefix = (\<lambda>cid. if odd (length cid) then take 1 cid else []),
      manifest_ContentPrefix = ''m'',
      UndeleteContent_err = (\<lambda>cid. None),
      DeleteContent_err = (\<lambda>cid. None),
      Flush_err = (\<lambda>n. None)\<rparr>"

definition one_hour :: int where
  "one_hour = 3600000000000"

text \<open>
  Example contents, each with the repository time at its visit: a manifest content
  written ten minutes ago, the same content marked deleted, and two ordinary contents
  with timestamp 0, one visited after ten minutes and one after two hours.
\<close>

definition recent_manifest_content :: "time \<times> Info" where
  "recent_manifest_content = (time_Unix 600 0, InfoStruct ''m0a1b2c'' 0 ''p1'' 0 False)"

definition deleted_manifest_content :: "time \<times> Info" where
  "deleted_manifest_content = (time_Unix 600 0, InfoStruct ''m0a1b2c'' 0 ''p1'' 0 True)"

definition recent_content :: "time \<times> Info" where
  "recent_content = (time_Unix 600 0, InfoStruct ''aabbcc'' 0 ''p1'' 0 False)"

definition old_content :: "time \<times> Info" where
  "old_content = (time_Unix 7200 0, InfoStruct ''ddeeff'' 0 ''p1'' 90 False)"

definition old_deleted_content :: "time \<times> Info" where
  "old_deleted_content = (time_Unix 7200 0, InfoStruct ''aabbcc'' 0 ''p1'' 0 True)"

section \<open>Directory manifest builder (package snapshotfs)\<close>

text \<open>
  \<open>sort.Slice\<close> sorts a slice in place by a \<open>less\<close> function. It is not stable, so the
  order of entries that \<open>less\<close> does not separate is not fixed by Go; the model is an
  insertion sort, one of the orders Go may produce.
\<close>

fun insert_by :: "('a \<Rightarrow> 'a \<Rightarrow> bool) \<Rightarrow> 'a \<Rightarrow> 'a list \<Rightarrow> 'a list" where
  "insert_by lt x [] = [x]"
| "insert_by lt x (y # ys) = (if lt y x then y # insert_by lt x ys else x # y # ys)"

definition sort_Slice :: "('a \<Rightarrow> 'a \<Rightarrow> bool) \<Rightarrow> 'a list \<Rightarrow> 'a list" where
  "sort_Slice lt xs = foldr (insert_by lt) xs []"

text \<open>
  The types of packages \<open>fs\<close> and \<open>snapshot\<close> that the builder works on, with the fields
  it reads and writes. A directory entry has more fields (permissions, owner, object ID);
  the builder does not look at them.
\<close>

record EntryWithError =
  EntryPath :: string
  Error :: string

text \<open>
  \<open>FailedEntries\<close> is a Go slice: a header (array, length, capacity) over a backing array
  that other headers may share. \<open>Build\<close> copies the summary, header included, and then
  sorts and cuts the builder's own slice, so the arrays are kept in an explicit store.
  Address 0 holds the empty array of a \<open>nil\<close> slice.
\<close>

record slice =
  s_ptr :: nat
  s_len :: nat
  s_cap :: nat

record store =
  arrays :: "nat \<Rightarrow> EntryWithError list"
  next_addr :: nat

definition nil_slice :: slice where
  "nil_slice = \<lparr>s_ptr = 0, s_len = 0, s_cap = 0\<rparr>"

definition empty_store :: store where
  "empty_store = \<lparr>arrays = (\<lambda>a. []), next_addr = 1\<rparr>"

definition slice_elems :: "store \<Rightarrow> slice \<Rightarrow> EntryWithError list" where
  "slice_elems h s = take (s_len s) (arrays h (s_ptr s))"

text \<open>
  \<open>append(s, xs...)\<close>: when the capacity suffices the elements are written into the
  backing array behind the current length; otherwise a new array is allocated and the old
  elements are copied. How much capacity Go allocates is left to the runtime: it is at
  least the needed length, and the argument \<open>grow\<close> (old capacity, needed length) may ask
  for more.
\<close>

definition append_slice ::
  "(nat \<Rightarrow> nat \<Rightarrow> nat) \<Rightarrow> store \<Rightarrow> slice \<Rightarrow> EntryWithError list \<Rightarrow> store \<times> slice" where
  "append_slice grow h s xs =
     (let n = s_len s + length xs
      in if n \<le> s_cap s then
           (h\<lparr>arrays := (arrays h)(s_ptr s :=
                 take (s_len s) (arrays h (s_ptr s)) @ xs @ drop n (arrays h (s_ptr s)))\<rparr>,
            s\<lparr>s_len := n\<rparr>)
         else
           (let c = max n (grow (s_cap s) n); a = next_addr h
            in (h\<lparr>arrays := (arrays h)(a :=
                     slice_elems h s @ xs
                       @ replicate (c - n) \<lparr>EntryPath = [], Error = []\<rparr>),
                   next_addr := a + 1\<rparr>,
                \<lparr>s_ptr = a, s_len = n, s_cap = c\<rparr>)))"

text \<open>\<open>sort.Slice\<close> on a slice in the store: the first \<open>s_len\<close> cells are permuted.\<close>

definition sort_in_place ::
  "(EntryWithError \<Rightarrow> EntryWithError \<Rightarrow> bool) \<Rightarrow> store \<Rightarrow> slice \<Rightarrow> store" where
  "sort_in_place lt h s =
     h\<lparr>arrays := (arrays h)(s_ptr s :=
          sort_Slice lt (take (s_len s) (arrays h (s_ptr s)))
            @ drop (s_len s) (arrays h (s_ptr s)))\<rparr>"

datatype EntryType = EntryTypeUnknown | EntryTypeFile | EntryTypeDirectory | EntryTypeSymlink

record DirectorySummary =
  TotalFileSize :: int
  TotalFileCount :: int
  TotalSymlinkCount :: int
  TotalDirCount :: int
  MaxModTime :: time
  IncompleteReason :: string
  FatalErrorCount :: int
  IgnoredErrorCount :: int
  FailedEntries :: slice

record DirEntry =
  Name :: string
  Type :: EntryType
  FileSize :: int
  ModTime :: time
  DirSummary :: "DirectorySummary option"

record DirManifest =
  Summary :: DirectorySummary
  Entries :: "DirEntry list"

text \<open>
  The builder. Its \<open>entries\<close> slice is a list: the manifest returned by \<open>Build\<close> gets the
  very header the builder holds, so nothing depends on how the two share it.
\<close>

record dirManifestBuilder =
  summary :: DirectorySummary
  entries :: "DirEntry list"

text \<open>The zero \<open>time.Time\<close> is January 1 of year 1, 62135596800 seconds before the epoch.\<close>

definition zero_time :: time where
  "zero_time = time_Unix (- 62135596800) 0"

definition empty_summary :: DirectorySummary where
  "empty_summary =
     \<lparr>TotalFileSize = 0, TotalFileCount = 0, TotalSymlinkCount = 0, TotalDirCount = 0,
      MaxModTime = zero_time, IncompleteReason = [], FatalErrorCount = 0,
      IgnoredErrorCount = 0, FailedEntries = nil_slice\<rparr>"

definition empty_builder :: dirManifestBuilder where
  "empty_builder = \<lparr>summary = empty_summary, entries = []\<rparr>"

definition addEntry ::
  "(nat \<Rightarrow> nat \<Rightarrow> nat) \<Rightarrow> store \<times> dirManifestBuilder \<Rightarrow> DirEntry
     \<Rightarrow> store \<times> dirManifestBuilder" where
  "addEntry grow hb de =
     (case hb of (h, b) \<Rightarrow>
      let s0 = summary b;
          s1 = (if After (ModTime de) (MaxModTime s0) then s0\<lparr>MaxModTime := ModTime de\<rparr>
                else s0);
          b1 = b\<lparr>entries := entries b @ [de]\<rparr>
      in case Type de of
           EntryTypeSymlink \<Rightarrow>
             (h, b1\<lparr>summary := s1\<lparr>TotalSymlinkCount := wrap64 (TotalSymlinkCount s1 + 1)\<rparr>\<rparr>)
         | EntryTypeFile \<Rightarrow>
             (h, b1\<lparr>summary := s1\<lparr>TotalFileCount := wrap64 (TotalFileCount s1 + 1),
                                    TotalFileSize := wrap64 (TotalFileSize s1 + FileSize de)\<rparr>\<rparr>)
         | EntryTypeDirectory \<Rightarrow>
             (case DirSummary de of
                None \<Rightarrow> (h, b1\<lparr>summary := s1\<rparr>)
              | Some childSummary \<Rightarrow>
                  (case append_slice grow h (FailedEntries s1)
                          (slice_elems h (FailedEntries childSummary)) of
                     (h1, fe) \<Rightarrow>
                  let s2 = s1\<lparr>TotalFileCount :=
                                  wrap64 (TotalFileCount s1 + TotalFileCount childSummary),
                               TotalFileSize :=
                                  wrap64 (TotalFileSize s1 + TotalFileSize childSummary),
                               TotalDirCount :=
                                  wrap64 (TotalDirCount s1 + TotalDirCount childSummary),
                               FatalErrorCount :=
                                  wrap64 (FatalErrorCount s1 + FatalErrorCount childSummary),
                               IgnoredErrorCount :=
                                  wrap64 (IgnoredErrorCount s1 + IgnoredErrorCount childSummary),
                               FailedEntries := fe\<rparr>;
                      s3 = (if After (MaxModTime childSummary) (MaxModTime s2)
                            then s2\<lparr>MaxModTime := MaxModTime childSummary\<rparr> else s2)
                  in (h1, b1\<lparr>summary := s3\<rparr>)))
         | EntryTypeUnknown \<Rightarrow> (h, b1\<lparr>summary := s1\<rparr>))"

definition addFailedEntry ::
  "(nat \<Rightarrow> nat \<Rightarrow> nat) \<Rightarrow> store \<times> dirManifestBuilder \<Rightarrow> string \<Rightarrow> bool \<Rightarrow> string
     \<Rightarrow> store \<times> dirManifestBuilder" where
  "addFailedEntry grow hb relPath isIgnoredError err =
     (case hb of (h, b) \<Rightarrow>
      let s0 = summary b;
          s1 = (if isIgnoredError
                then s0\<lparr>IgnoredErrorCount := wrap64 (IgnoredErrorCount s0 + 1)\<rparr>
                else s0\<lparr>FatalErrorCount := wrap64 (FatalErrorCount s0 + 1)\<rparr>)
      in case append_slice grow h (FailedEntries s1) [\<lparr>EntryPath = relPath, Error = err\<rparr>] of
           (h1, fe) \<Rightarrow> (h1, b\<lparr>summary := s1\<lparr>FailedEntries := fe\<rparr>\<rparr>))"

definition isDir :: "DirEntry \<Rightarrow> bool" where
  "isDir e \<longleftrightarrow> Type e = EntryTypeDirectory"

text \<open>The two \<open>less\<close> functions handed to \<open>sort.Slice\<close>.\<close>

definition failure_less :: "EntryWithError \<Rightarrow> EntryWithError \<Rightarrow> bool" where
  "failure_less a b \<longleftrightarrow> EntryPath a < EntryPath b"

definition entry_less :: "DirEntry \<Rightarrow> DirEntry \<Rightarrow> bool" where
  "entry_less a b = (if isDir a \<noteq> isDir b then isDir a else Name a < Name b)"

text \<open>
  \<open>sortedTopFailures\<close>; \<open>fs.MaxFailedEntriesPerDirectorySummary\<close> is not among the
  sources and is the first argument. The result is the store after the sort and the
  header that is returned.
\<close>

definition sortedTopFailures :: "nat \<Rightarrow> store \<Rightarrow> slice \<Rightarrow> store \<times> slice" where
  "sortedTopFailures MaxFailedEntriesPerDirectorySummary h es =
     (let h1 = sort_in_place failure_less h es
      in if s_len es > MaxFailedEntriesPerDirectorySummary
         then (h1, es\<lparr>s_len := MaxFailedEntriesPerDirectorySummary\<rparr>)
         else (h1, es))"

text \<open>
  \<open>Build\<close>: the store and the builder afterwards, and the manifest returned (its constant
  \<open>StreamType\<close> is left out). \<open>s\<close> is the copy of the summary made at the start; the result
  of \<open>sortedTopFailures\<close> is assigned to the builder's summary.
\<close>

definition Build ::
  "nat \<Rightarrow> time \<Rightarrow> string \<Rightarrow> store \<times> dirManifestBuilder
     \<Rightarrow> store \<times> dirManifestBuilder \<times> DirManifest" where
  "Build MaxFailedEntriesPerDirectorySummary dirModTime reason hb =
     (case hb of (h, b) \<Rightarrow>
      let s0 = summary b;
          s1 = s0\<lparr>TotalDirCount := wrap64 (TotalDirCount s0 + 1)\<rparr>;
          s2 = (if length (entries b) = 0 then s1\<lparr>MaxModTime := dirModTime\<rparr> else s1);
          s3 = s2\<lparr>IncompleteReason := reason\<rparr>
      in case sortedTopFailures MaxFailedEntriesPerDirectorySummary h
                (FailedEntries (summary b)) of
           (h1, fe) \<Rightarrow>
             let sorted = sort_Slice entry_less (entries b);
                 b1 = b\<lparr>summary := (summary b)\<lparr>FailedEntries := fe\<rparr>, entries := sorted\<rparr>
             in (h1, b1, \<lparr>Summary = s3, Entries = sorted\<rparr>))"

text \<open>What a reader of the manifest finds in its summary's \<open>FailedEntries\<close>.\<close>

definition manifest_FailedEntries :: "store \<times> dirManifestBuilder \<times> DirManifest
    \<Rightarrow> EntryWithError list" where
  "manifest_FailedEntries r =
     (case r of (h, b, m) \<Rightarrow> slice_elems h (FailedEntries (Summary m)))"

text \<open>
  A builder is used by a sequence of calls of \<open>addEntry\<close> and \<open>addFailedEntry\<close> on a fresh
  builder (the mutex puts the concurrent calls into some order), sealed by \<open>Build\<close>.
\<close>

datatype builder_op = AddEntry DirEntry | AddFailedEntry string bool string

fun apply_op ::
  "(nat \<Rightarrow> nat \<Rightarrow> nat) \<Rightarrow> store \<times> dirManifestBuilder \<Rightarrow> builder_op
     \<Rightarrow> store \<times> dirManifestBuilder" where
  "apply_op grow hb (AddEntry de) = addEntry grow hb de"
| "apply_op grow hb (AddFailedEntry relPath isIgnoredError err) =
     addFailedEntry grow hb relPath isIgnoredError err"

definition run_builder ::
  "(nat \<Rightarrow> nat \<Rightarrow> nat) \<Rightarrow> store \<Rightarrow> builder_op list \<Rightarrow> store \<times> dirManifestBuilder" where
  "run_builder grow h ops = foldl (apply_op grow) (h, empty_builder) ops"

definition built_manifest ::
  "(nat \<Rightarrow> nat \<Rightarrow> nat) \<Rightarrow> nat \<Rightarrow> store \<Rightarrow> builder_op list \<Rightarrow> time \<Rightarrow> string \<Rightarrow> DirManifest" where
  "built_manifest grow mx h ops dirModTime reason =
     snd (snd (Build mx dirModTime reason (run_builder grow h ops)))"

text \<open>
  What one call contributes to each counter of the builder's summary, read off
  \<open>addEntry\<close> and \<open>addFailedEntry\<close>, as mathematical integers (before any wrap-around).
\<close>

fun op_files :: "builder_op \<Rightarrow> int" where
  "op_files (AddEntry de) =
     (case Type de of
        EntryTypeFile \<Rightarrow> 1
      | EntryTypeDirectory \<Rightarrow>
          (case DirSummary de of None \<Rightarrow> 0 | Some childSummary \<Rightarrow> TotalFileCount childSummary)
      | _ \<Rightarrow> 0)"
| "op_files (AddFailedEntry relPath isIgnoredError err) = 0"

fun op_size :: "builder_op \<Rightarrow> int" where
  "op_size (AddEntry de) =
     (case Type de of
        EntryTypeFile \<Rightarrow> FileSize de
      | EntryTypeDirectory \<Rightarrow>
          (case DirSummary de of None \<Rightarrow> 0 | Some childSummary \<Rightarrow> TotalFileSize childSummary)
      | _ \<Rightarrow> 0)"
| "op_size (AddFailedEntry relPath isIgnoredError err) = 0"

fun op_dirs :: "builder_op \<Rightarrow> int" where
  "op_dirs (AddEntry de) =
     (case Type de of
        EntryTypeDirectory \<Rightarrow>
          (case DirSummary de of None \<Rightarrow> 0 | Some childSummary \<Rightarrow> TotalDirCount childSummary)
      | _ \<Rightarrow> 0)"
| "op_dirs (AddFailedEntry relPath isIgnoredError err) = 0"

fun op_fatal :: "builder_op \<Rightarrow> int" where
  "op_fatal (AddEntry de) =
     (case Type de of
        EntryTypeDirectory \<Rightarrow>
          (case DirSummary de of None \<Rightarrow> 0 | Some childSummary \<Rightarrow> FatalErrorCount childSummary)
      | _ \<Rightarrow> 0)"
| "op_fatal (AddFailedEntry relPath isIgnoredError err) = (if isIgnoredError then 0 else 1)"

fun op_ignored :: "builder_op \<Rightarrow> int" where
  "op_ignored (AddEntry de) =
     (case Type de of
        EntryTypeDirectory \<Rightarrow>
          (case DirSummary de of None \<Rightarrow> 0
           | Some childSummary \<Rightarrow> IgnoredErrorCount childSummary)
      | _ \<Rightarrow> 0)"
| "op_ignored (AddFailedEntry relPath isIgnoredError err) = (if isIgnoredError then 1 else 0)"

text \<open>
  A condition on the calls a builder receives, for one counter with contribution \<open>f\<close>:
  every contribution is non-negative, and the sum of the contributions plus \<open>extra\<close> is
  below \<open>2^63\<close>, so that no \<open>int64\<close> addition to this counter wraps (\<open>extra\<close> is 1 for the
  directory count, which \<open>Build\<close> increments, and 0 otherwise).
\<close>

definition adds_up :: "(builder_op \<Rightarrow> int) \<Rightarrow> int \<Rightarrow> builder_op list \<Rightarrow> bool" where
  "adds_up f extra ops \<longleftrightarrow>
     list_all (\<lambda>x. 0 \<le> f x) ops \<and> sum_list (map f ops) + extra < 2 ^ 63"

text \<open>
  Examples: the entry of a subdirectory that holds one file of the given size and was
  last modified at the given time, as \<open>Build\<close> and \<open>newDirEntryWithSummary\<close> make it.
\<close>

definition subdir_summary :: "int \<Rightarrow> time \<Rightarrow> DirectorySummary" where
  "subdir_summary fsize mtime =
     empty_summary\<lparr>TotalFileSize := fsize, TotalFileCount := 1, TotalDirCount := 1,
       MaxModTime := mtime\<rparr>"

definition subdir_entry :: "string \<Rightarrow> int \<Rightarrow> time \<Rightarrow> DirEntry" where
  "subdir_entry dname fsize mtime =
     \<lparr>Name = dname, Type = EntryTypeDirectory, FileSize = 0, ModTime = mtime,
      DirSummary = Some (subdir_summary fsize mtime)\<rparr>"

text \<open>
  Two subdirectories, each holding one sparse file of \<open>2^62\<close> bytes; and two
  subdirectories with small files next to one unreadable file.
\<close>

definition two_huge_subdirs :: "builder_op list" where
  "two_huge_subdirs =
     [AddEntry (subdir_entry ''a'' (2 ^ 62) 5), AddEntry (subdir_entry ''b'' (2 ^ 62) 7)]"

definition two_small_subdirs :: "builder_op list" where
  "two_small_subdirs =
     [AddEntry (subdir_entry ''a'' 100 5), AddEntry (subdir_entry ''b'' 200 7),
      AddFailedEntry ''c'' False ''permission denied'']"

text \<open>
  A subdirectory with a file of 100 bytes next to a file entry that reports the size
  \<open>- 200\<close>; and the same subdirectory next to an entry of type file, of 10 bytes and
  modified at time 6, that nevertheless carries the summary of a directory last modified
  at time 50.
\<close>

definition file_entry :: "string \<Rightarrow> int \<Rightarrow> time \<Rightarrow> DirEntry" where
  "file_entry fname fsize mtime =
     \<lparr>Name = fname, Type = EntryTypeFile, FileSize = fsize, ModTime = mtime,
      DirSummary = None\<rparr>"

definition subdir_and_negative_file :: "builder_op list" where
  "subdir_and_negative_file =
     [AddEntry (subdir_entry ''a'' 100 5), AddEntry (file_entry ''f'' (- 200) 6)]"

definition file_with_summary :: DirEntry where
  "file_with_summary = (file_entry ''g'' 10 6)\<lparr>DirSummary := Some (subdir_summary 100 50)\<rparr>"

text \<open>
  Example: eleven files of one directory fail to be read, reported in some order; Go's
  \<open>append\<close> is taken to double the capacity.
\<close>

definition eleven_failures :: "builder_op list" where
  "eleven_failures =
     map (\<lambda>p. AddFailedEntry p False ''permission denied'')
       [''f07'', ''f03'', ''f11'', ''f01'', ''f09'', ''f05'', ''f02'', ''f10'', ''f04'',
        ''f08'', ''f06'']"

definition double_capacity :: "nat \<Rightarrow> nat \<Rightarrow> nat" where
  "double_capacity c n = 2 * c"

text \<open>
  Examples for the merged index: two indexes that hold the same content in the same pack
  blob with the same timestamp but different offsets, and the \<open>failingIndex\<close> of the
  tests, whose \<open>GetInfo\<close> returns an error.
\<close>

definition tied_ia :: Index where
  "tied_ia = indexWithItems [InfoStruct ''aabbcc'' 1 ''xx'' 11 False]"

definition tied_ib :: Index where
  "tied_ib = indexWithItems [InfoStruct ''aabbcc'' 1 ''xx'' 22 False]"

definition failingIndex :: Index where
  "failingIndex =
     \<lparr>GetInfo = (\<lambda>k. (None, Some (Errorf ''some error''))),
      ApproximateCount = 0,
      Iterate_AllIDs = Inl (Errorf ''some error'')\<rparr>"

text \<open>
  Examples for the committed content index: a cache in which no index blob can be
  opened, and one in which every blob opens as a small index while building the combined
  index fails; and a committed content index with nothing in use.
\<close>

definition env_open_fails :: index_env where
  "env_open_fails =
     \<lparr>cache_openIndex = (\<lambda>b. Inl (Errorf ''blob not found'')),
      Builder_Build = (\<lambda>infos v. Inr []),
      index_Open = (\<lambda>buf ov. Inl (Errorf ''invalid index'')),
      indexVersion = 2, v1PerContentOverhead = 0\<rparr>"

definition env_build_fails :: index_env where
  "env_build_fails =
     \<lparr>cache_openIndex = (\<lambda>b. Inr test_i1),
      Builder_Build = (\<lambda>infos v. Inl (Errorf ''build failed'')),
      index_Open = (\<lambda>buf ov. Inl (Errorf ''invalid index'')),
      indexVersion = 2, v1PerContentOverhead = 0\<rparr>"

definition nothing_in_use :: committedContentIndex where
  "nothing_in_use = \<lparr>rev = 7, deletionWatermark = 100, inUse = Map.empty, merged = []\<rparr>"

section \<open>Properties\<close>

subsection \<open>Machine integers\<close>

lemma wrap64_id: "in_int64 x \<Longrightarrow> wrap64 x = x"
  by (simp add: wrap64_def in_int64_def)

subsection \<open>Uploader: parallelism\<close>

text \<open>
  C7 (as stated, refuted): the parallelism is not the minimum of the three numbers. With
  \<open>ParallelUploads = 8\<close>, a policy that sets \<open>MaxParallelFileReads = 64\<close> and 4 CPUs the
  uploader runs with parallelism 8: more than the number of CPUs and different from
  \<open>min 8 (min 64 4)\<close>.
\<close>

theorem effectiveParallelFileReads_not_min_counterexample:
  "effectiveParallelFileReads
     \<lparr>totalWrittenBytes = 0, MaxUploadBytes = 0, ParallelUploads = 8, canceled = 0\<rparr>
     (Some 64) 4 = 8
   \<and> \<not> effectiveParallelFileReads
     \<lparr>totalWrittenBytes = 0, MaxUploadBytes = 0, ParallelUploads = 8, canceled = 0\<rparr>
     (Some 64) 4 \<le> 4
   \<and> effectiveParallelFileReads
     \<lparr>totalWrittenBytes = 0, MaxUploadBytes = 0, ParallelUploads = 8, canceled = 0\<rparr>
     (Some 64) 4 \<noteq> min 8 (min 64 4)"
  by (simp add: effectiveParallelFileReads_def OrDefault_def)

text \<open>
  C7 (amended): let \<open>M\<close> be the policy's \<open>MaxParallelFileReads\<close> when the policy sets it
  and the number of CPUs only when it does not. The parallelism of an upload is
  \<open>min ParallelUploads M\<close> when \<open>ParallelUploads\<close> is at least 1 and \<open>M\<close> otherwise. So it
  never exceeds \<open>M\<close>, it never exceeds \<open>ParallelUploads\<close> when that is at least 1, it is
  bounded by the number of CPUs when the policy leaves \<open>MaxParallelFileReads\<close> unset, and
  the worker pool is created with one worker less than the parallelism.
\<close>

theorem effectiveParallelFileReads_amended:
  "effectiveParallelFileReads u pol ncpu =
     (if 1 \<le> ParallelUploads u then min (ParallelUploads u) (OrDefault pol ncpu)
      else OrDefault pol ncpu)
   \<and> effectiveParallelFileReads u pol ncpu \<le> OrDefault pol ncpu
   \<and> (1 \<le> ParallelUploads u \<longrightarrow> effectiveParallelFileReads u pol ncpu \<le> ParallelUploads u)
   \<and> (pol = None \<longrightarrow> effectiveParallelFileReads u pol ncpu \<le> ncpu)
   \<and> (\<forall>v. pol = Some v \<longrightarrow> effectiveParallelFileReads u pol ncpu \<le> v)
   \<and> (in_int64 (effectiveParallelFileReads u pol ncpu - 1) \<longrightarrow>
        Upload_workerPool u pol ncpu = effectiveParallelFileReads u pol ncpu - 1)"
  by (auto simp: effectiveParallelFileReads_def OrDefault_def Let_def Upload_workerPool_def
      wrap64_id split: option.splits)

theorem effectiveParallelFileReads_amended_witness:
  "effectiveParallelFileReads
     \<lparr>totalWrittenBytes = 0, MaxUploadBytes = 0, ParallelUploads = 3, canceled = 0\<rparr>
     None 4 = 3
   \<and> effectiveParallelFileReads
     \<lparr>totalWrittenBytes = 0, MaxUploadBytes = 0, ParallelUploads = 0, canceled = 0\<rparr>
     (Some 2) 4 = 2
   \<and> Upload_workerPool
     \<lparr>totalWrittenBytes = 0, MaxUploadBytes = 0, ParallelUploads = 3, canceled = 0\<rparr>
     None 4 = 2"
  using effectiveParallelFileReads_amended
    [of "\<lparr>totalWrittenBytes = 0, MaxUploadBytes = 0, ParallelUploads = 3, canceled = 0\<rparr>"
        None 4]
    effectiveParallelFileReads_amended
    [of "\<lparr>totalWrittenBytes = 0, MaxUploadBytes = 0, ParallelUploads = 0, canceled = 0\<rparr>"
        "Some 2" 4]
  by (simp add: OrDefault_def in_int64_def)

subsection \<open>Uploader: cancellation\<close>

lemma upload_step_canceled: "canceled u \<noteq> 0 \<Longrightarrow> canceled (upload_step u e) \<noteq> 0"
  by (cases e) (simp_all add: Cancel_def)

lemma foldl_upload_step_canceled:
  "canceled u \<noteq> 0 \<Longrightarrow> canceled (foldl upload_step u evs) \<noteq> 0"
  by (induction evs arbitrary: u) (simp_all add: upload_step_canceled)

lemma foldl_upload_step_Cancel:
  "EvCancel \<in> set evs \<Longrightarrow> canceled (foldl upload_step u evs) \<noteq> 0"
proof (induction evs arbitrary: u)
  case Nil
  then show ?case by simp
next
  case (Cons e evs)
  show ?case
  proof (cases "e = EvCancel")
    case True
    then have "canceled (upload_step u e) \<noteq> 0" by (simp add: Cancel_def)
    then show ?thesis by (simp add: foldl_upload_step_canceled)
  next
    case False
    with Cons.prems have "EvCancel \<in> set evs" by simp
    then show ?thesis by (simp add: Cons.IH)
  qed
qed

text \<open>
  C8 (as stated, refuted): an upload with \<open>MaxUploadBytes = 1000\<close> writes 2000 bytes,
  which makes \<open>limit reached\<close> the first reason observed, and is then canceled by the
  user. The manifest records \<open>canceled\<close>, the second reason.
\<close>

theorem incompleteReason_first_observed_counterexample:
  "first_reason_observed
     \<lparr>totalWrittenBytes = 0, MaxUploadBytes = 1000, ParallelUploads = 0, canceled = 0\<rparr>
     [EvWritten 2000, EvCancel] = ''limit reached''
   \<and> Upload_IncompleteReason
     \<lparr>totalWrittenBytes = 0, MaxUploadBytes = 1000, ParallelUploads = 0, canceled = 0\<rparr>
     [EvWritten 2000, EvCancel] = ''canceled''
   \<and> Upload_IncompleteReason
     \<lparr>totalWrittenBytes = 0, MaxUploadBytes = 1000, ParallelUploads = 0, canceled = 0\<rparr>
     [EvWritten 2000, EvCancel]
     \<noteq> first_reason_observed
     \<lparr>totalWrittenBytes = 0, MaxUploadBytes = 1000, ParallelUploads = 0, canceled = 0\<rparr>
     [EvWritten 2000, EvCancel]"
  by (simp add: first_reason_observed_def Upload_IncompleteReason_def Upload_final_def
      Upload_start_def incompleteReason_def IsCanceled_def Cancel_def wrap64_def
      IncompleteReasonCanceled_def IncompleteReasonLimitReached_def)

text \<open>
  C8 (amended): \<open>IsCanceled\<close> is true exactly when cancellation was requested or
  \<open>MaxUploadBytes > 0\<close> and \<open>totalWrittenBytes > MaxUploadBytes\<close>. The reason recorded in
  the final manifest is computed once, from the state at the end of the upload:
  \<open>canceled\<close> whenever cancellation was requested at any moment of the upload (before or
  after the byte limit was passed), otherwise \<open>limit reached\<close> when the byte limit is
  exceeded at the end, otherwise empty. The order in which the two reasons occurred is
  not remembered.
\<close>

theorem IsCanceled_incompleteReason_amended:
  "(IsCanceled u \<longleftrightarrow>
      canceled u \<noteq> 0 \<or> (MaxUploadBytes u > 0 \<and> totalWrittenBytes u > MaxUploadBytes u))
   \<and> Upload_IncompleteReason u evs =
       (if canceled (Upload_final u evs) \<noteq> 0 then ''canceled''
        else if MaxUploadBytes (Upload_final u evs) > 0
                \<and> totalWrittenBytes (Upload_final u evs) > MaxUploadBytes (Upload_final u evs)
          then ''limit reached''
        else [])
   \<and> (EvCancel \<in> set evs \<longrightarrow> Upload_IncompleteReason u evs = ''canceled'')"
proof (intro conjI impI)
  show "IsCanceled u \<longleftrightarrow>
      canceled u \<noteq> 0 \<or> (MaxUploadBytes u > 0 \<and> totalWrittenBytes u > MaxUploadBytes u)"
    by (simp add: IsCanceled_def incompleteReason_def IncompleteReasonCanceled_def
        IncompleteReasonLimitReached_def)
next
  show "Upload_IncompleteReason u evs =
       (if canceled (Upload_final u evs) \<noteq> 0 then ''canceled''
        else if MaxUploadBytes (Upload_final u evs) > 0
                \<and> totalWrittenBytes (Upload_final u evs) > MaxUploadBytes (Upload_final u evs)
          then ''limit reached''
        else [])"
    by (simp add: Upload_IncompleteReason_def incompleteReason_def
        IncompleteReasonCanceled_def IncompleteReasonLimitReached_def)
next
  assume "EvCancel \<in> set evs"
  then have "canceled (Upload_final u evs) \<noteq> 0"
    unfolding Upload_final_def by (rule foldl_upload_step_Cancel)
  then show "Upload_IncompleteReason u evs = ''canceled''"
    by (simp add: Upload_IncompleteReason_def incompleteReason_def
        IncompleteReasonCanceled_def)
qed

theorem IsCanceled_incompleteReason_amended_witness:
  "IsCanceled \<lparr>totalWrittenBytes = 2000, MaxUploadBytes = 1000, ParallelUploads = 0,
      canceled = 0\<rparr>
   \<and> \<not> IsCanceled \<lparr>totalWrittenBytes = 2000, MaxUploadBytes = 0, ParallelUploads = 0,
      canceled = 0\<rparr>
   \<and> EvCancel \<in> set [EvWritten 2000, EvCancel]
   \<and> Upload_IncompleteReason
       \<lparr>totalWrittenBytes = 0, MaxUploadBytes = 1000, ParallelUploads = 0, canceled = 0\<rparr>
       [EvWritten 2000, EvCancel] = ''canceled''"
proof -
  have a: "IsCanceled \<lparr>totalWrittenBytes = 2000, MaxUploadBytes = 1000, ParallelUploads = 0,
      canceled = 0\<rparr>"
    using IsCanceled_incompleteReason_amended
      [of "\<lparr>totalWrittenBytes = 2000, MaxUploadBytes = 1000, ParallelUploads = 0,
        canceled = 0\<rparr>" "[]", THEN conjunct1]
    by simp
  have b: "\<not> IsCanceled \<lparr>totalWrittenBytes = 2000, MaxUploadBytes = 0, ParallelUploads = 0,
      canceled = 0\<rparr>"
    using IsCanceled_incompleteReason_amended
      [of "\<lparr>totalWrittenBytes = 2000, MaxUploadBytes = 0, ParallelUploads = 0,
        canceled = 0\<rparr>" "[]", THEN conjunct1]
    by simp
  have c: "EvCancel \<in> set [EvWritten 2000, EvCancel]" by simp
  have d: "Upload_IncompleteReason
       \<lparr>totalWrittenBytes = 0, MaxUploadBytes = 1000, ParallelUploads = 0, canceled = 0\<rparr>
       [EvWritten 2000, EvCancel] = ''canceled''"
    using IsCanceled_incompleteReason_amended
      [of _ "[EvWritten 2000, EvCancel]", THEN conjunct2, THEN conjunct2] c
    by blast
  show ?thesis using a b c d by blast
qed

subsection \<open>Building a version 2 pack index\<close>

lemma dom_foldl_insert_absent:
  "dom (foldl (\<lambda>result v. let key = f v in
          if result key = None then result(key \<mapsto> g result) else result) m xs)
   = dom m \<union> f ` set xs"
  by (induction xs arbitrary: m) (auto simp: Let_def split: if_splits)

lemma dom_buildUniqueFormatToIndexMap:
  "dom (buildUniqueFormatToIndexMap infos) = indexV2FormatInfoFromInfo ` set infos"
  unfolding buildUniqueFormatToIndexMap_def
  by (simp add: dom_foldl_insert_absent)

lemma dom_buildPackIDToIndexMap:
  "dom (buildPackIDToIndexMap infos) = GetPackBlobID ` set infos"
  unfolding buildPackIDToIndexMap_def
  by (simp add: dom_foldl_insert_absent)

lemma foldl_max_bounds:
  "foldl maxContentLengths_step (a, b, c) xs = (p, q, r) \<Longrightarrow>
     (p \<ge> L \<longleftrightarrow> a \<ge> L \<or> (\<exists>v\<in>set xs. GetPackedLength v \<ge> L))
   \<and> (q \<ge> L \<longleftrightarrow> b \<ge> L \<or> (\<exists>v\<in>set xs. GetOriginalLength v \<ge> L))
   \<and> (r \<ge> L \<longleftrightarrow> c \<ge> L \<or> (\<exists>v\<in>set xs. GetPackOffset v \<ge> L))"
proof (induction xs arbitrary: a b c)
  case Nil
  then show ?case by simp
next
  case (Cons x xs)
  from Cons.prems Cons.IH show ?case
    by (fastforce simp: maxContentLengths_step_def split: if_splits)
qed

text \<open>
  C6: building a version 2 pack index fails exactly when the entries have more than 255
  distinct format descriptors, or more than \<open>2^24\<close> distinct pack blob IDs, or some
  entry has a packed or original length of at least \<open>2^28\<close>, or some entry has a pack
  offset of at least \<open>2^30\<close>; inside all four bounds the checks of \<open>newIndexBuilderV2\<close>
  pass. When they fail, \<open>buildV2\<close> returns the error and has written nothing.
\<close>

theorem newIndexBuilderV2_fails_iff:
  "((\<exists>err. newIndexBuilderV2 f infos = Inl err) \<longleftrightarrow>
      card (indexV2FormatInfoFromInfo ` set infos) > 255
      \<or> card (GetPackBlobID ` set infos) > 2 ^ 24
      \<or> (\<exists>v\<in>set infos. GetPackedLength v \<ge> 2 ^ 28 \<or> GetOriginalLength v \<ge> 2 ^ 28)
      \<or> (\<exists>v\<in>set infos. GetPackOffset v \<ge> 2 ^ 30))
   \<and> (\<forall>err. newIndexBuilderV2 f infos = Inl err \<longrightarrow>
         buildV2 f write_index infos output = (Some err, output))"
proof -
  obtain p q r where m: "maxContentLengths infos = (p, q, r)"
    by (cases "maxContentLengths infos") auto
  from m have b: "\<And>L. (p \<ge> L \<longleftrightarrow> (\<exists>v\<in>set infos. GetPackedLength v \<ge> L) \<or> L = 0)
      \<and> (q \<ge> L \<longleftrightarrow> (\<exists>v\<in>set infos. GetOriginalLength v \<ge> L) \<or> L = 0)
      \<and> (r \<ge> L \<longleftrightarrow> (\<exists>v\<in>set infos. GetPackOffset v \<ge> L) \<or> L = 0)"
    unfolding maxContentLengths_def using foldl_max_bounds [of 0 0 0 infos p q r] by auto
  have z: "(2 ^ 28 :: 32 word) \<noteq> 0" "(2 ^ 30 :: 32 word) \<noteq> 0" by simp_all
  have "(\<exists>err. newIndexBuilderV2 f infos = Inl err) \<longleftrightarrow>
      card (indexV2FormatInfoFromInfo ` set infos) > 255
      \<or> card (GetPackBlobID ` set infos) > 2 ^ 24
      \<or> (p \<ge> 2 ^ 28 \<or> q \<ge> 2 ^ 28) \<or> r \<ge> 2 ^ 30"
    by (auto simp: newIndexBuilderV2_def Let_def m dom_buildUniqueFormatToIndexMap
        dom_buildPackIDToIndexMap v2MaxFormatCount_def v2MaxUniquePackIDCount_def
        v2MaxContentLength_def v2MaxPackOffset_def)
  then have first: "(\<exists>err. newIndexBuilderV2 f infos = Inl err) \<longleftrightarrow>
      card (indexV2FormatInfoFromInfo ` set infos) > 255
      \<or> card (GetPackBlobID ` set infos) > 2 ^ 24
      \<or> (\<exists>v\<in>set infos. GetPackedLength v \<ge> 2 ^ 28 \<or> GetOriginalLength v \<ge> 2 ^ 28)
      \<or> (\<exists>v\<in>set infos. GetPackOffset v \<ge> 2 ^ 30)"
    using b [of "2 ^ 28"] b [of "2 ^ 30"] z by blast
  have second: "\<forall>err. newIndexBuilderV2 f infos = Inl err \<longrightarrow>
         buildV2 f write_index infos output = (Some err, output)"
    by (simp add: buildV2_def)
  from first second show ?thesis by blast
qed

theorem newIndexBuilderV2_fails_iff_witness:
  "(\<exists>err. newIndexBuilderV2 (\<lambda>cid. map (of_nat \<circ> of_char) cid)
        [(InfoStruct ''aabbcc'' 1 ''xx'' 11 False)\<lparr>GetPackedLength := 2 ^ 28\<rparr>] = Inl err)
   \<and> (\<exists>err. newIndexBuilderV2 (\<lambda>cid. map (of_nat \<circ> of_char) cid)
        [InfoStruct ''aabbcc'' 1 ''xx'' (2 ^ 30) False] = Inl err)
   \<and> \<not> (\<exists>err. newIndexBuilderV2 (\<lambda>cid. map (of_nat \<circ> of_char) cid)
        [(InfoStruct ''aabbcc'' 1 ''xx'' (2 ^ 30 - 1) False)
           \<lparr>GetPackedLength := 2 ^ 28 - 1, GetOriginalLength := 2 ^ 28 - 1\<rparr>,
         InfoStruct ''ddeeff'' 1 ''yy'' 111 False] = Inl err)"
proof -
  let ?f = "\<lambda>cid :: ID. map (of_nat \<circ> of_char) cid :: byte list"
  have a: "\<exists>err. newIndexBuilderV2 ?f
        [(InfoStruct ''aabbcc'' 1 ''xx'' 11 False)\<lparr>GetPackedLength := 2 ^ 28\<rparr>] = Inl err"
    using newIndexBuilderV2_fails_iff [of ?f
        "[(InfoStruct ''aabbcc'' 1 ''xx'' 11 False)\<lparr>GetPackedLength := 2 ^ 28\<rparr>]",
        THEN conjunct1]
    by (simp add: InfoStruct_def)
  have b: "\<exists>err. newIndexBuilderV2 ?f
        [InfoStruct ''aabbcc'' 1 ''xx'' (2 ^ 30) False] = Inl err"
    using newIndexBuilderV2_fails_iff [of ?f
        "[InfoStruct ''aabbcc'' 1 ''xx'' (2 ^ 30) False]", THEN conjunct1]
    by (simp add: InfoStruct_def)
  have c: "\<not> (\<exists>err. newIndexBuilderV2 ?f
        [(InfoStruct ''aabbcc'' 1 ''xx'' (2 ^ 30 - 1) False)
           \<lparr>GetPackedLength := 2 ^ 28 - 1, GetOriginalLength := 2 ^ 28 - 1\<rparr>,
         InfoStruct ''ddeeff'' 1 ''yy'' 111 False] = Inl err)"
    using newIndexBuilderV2_fails_iff [of ?f
        "[(InfoStruct ''aabbcc'' 1 ''xx'' (2 ^ 30 - 1) False)
           \<lparr>GetPackedLength := 2 ^ 28 - 1, GetOriginalLength := 2 ^ 28 - 1\<rparr>,
         InfoStruct ''ddeeff'' 1 ''yy'' 111 False]", THEN conjunct1]
    by (simp add: InfoStruct_def card_insert_if)
  from a b c show ?thesis by blast
qed

subsection \<open>Committed content index\<close>

text \<open>
  C5: \<open>getContent\<close> returns \<open>ErrContentNotFound\<close> exactly when the merged view has no
  entry for the ID (it answers \<open>(nil, nil)\<close>) or the entry it found is deleted with a
  timestamp not after the deletion watermark. Every other entry that is found is
  returned; in particular a deleted entry whose timestamp is strictly after the watermark
  is returned. (An error of the merged view is returned wrapped, which is not
  \<open>ErrContentNotFound\<close>.)
\<close>

theorem getContent_not_found_iff:
  "(getContent G c k = Inl ErrContentNotFound \<longleftrightarrow>
      G (merged c) k = (None, None)
      \<or> (\<exists>i e. G (merged c) k = (Some i, e) \<and> GetDeleted i
            \<and> \<not> After (Timestamp i) (deletionWatermark c)))
   \<and> (\<forall>i e. G (merged c) k = (Some i, e)
         \<and> \<not> (GetDeleted i \<and> \<not> After (Timestamp i) (deletionWatermark c))
         \<longrightarrow> getContent G c k = Inr i)
   \<and> (\<forall>i e. G (merged c) k = (Some i, e) \<and> GetDeleted i
         \<and> After (Timestamp i) (deletionWatermark c)
         \<longrightarrow> getContent G c k = Inr i)
   \<and> (\<forall>err. G (merged c) k = (None, Some err) \<longrightarrow>
         getContent G c k = Inl (Wrapped err ''error getting content info from index''))"
  by (auto simp: getContent_def shouldIgnore_def split: prod.splits option.splits)

theorem getContent_not_found_iff_witness:
  "getContent
      (\<lambda>m k. if k = ''de1e1e'' then (Some (InfoStruct ''de1e1e'' 4 ''xx'' 222 True), None)
             else (None, None))
      \<lparr>rev = 0, deletionWatermark = time_Unix 4 0, inUse = Map.empty, merged = []\<rparr>
      ''de1e1e'' = Inl ErrContentNotFound
   \<and> getContent
      (\<lambda>m k. if k = ''de1e1e'' then (Some (InfoStruct ''de1e1e'' 4 ''xx'' 222 True), None)
             else (None, None))
      \<lparr>rev = 0, deletionWatermark = time_Unix 3 0, inUse = Map.empty, merged = []\<rparr>
      ''de1e1e'' = Inr (InfoStruct ''de1e1e'' 4 ''xx'' 222 True)
   \<and> getContent
      (\<lambda>m k. if k = ''de1e1e'' then (Some (InfoStruct ''de1e1e'' 4 ''xx'' 222 True), None)
             else (None, None))
      \<lparr>rev = 0, deletionWatermark = time_Unix 3 0, inUse = Map.empty, merged = []\<rparr>
      ''aabbcc'' = Inl ErrContentNotFound"
proof -
  let ?G = "\<lambda>(m :: Index list) k. if k = ''de1e1e''
      then (Some (InfoStruct ''de1e1e'' 4 ''xx'' 222 True), None :: error option)
      else (None, None)"
  let ?c4 = "\<lparr>rev = 0, deletionWatermark = time_Unix 4 0, inUse = Map.empty, merged = []\<rparr>"
  let ?c3 = "\<lparr>rev = 0, deletionWatermark = time_Unix 3 0, inUse = Map.empty, merged = []\<rparr>"
  have a: "getContent ?G ?c4 ''de1e1e'' = Inl ErrContentNotFound"
    using getContent_not_found_iff [of ?G ?c4 "''de1e1e''", THEN conjunct1]
    by (simp add: InfoStruct_def After_def Timestamp_def time_Unix_def)
  have b: "getContent ?G ?c3 ''de1e1e'' = Inr (InfoStruct ''de1e1e'' 4 ''xx'' 222 True)"
    using getContent_not_found_iff [of ?G ?c3 "''de1e1e''", THEN conjunct2, THEN conjunct2,
        THEN conjunct1]
    by (simp add: InfoStruct_def After_def Timestamp_def time_Unix_def)
  have c: "getContent ?G ?c3 ''aabbcc'' = Inl ErrContentNotFound"
    using getContent_not_found_iff [of ?G ?c3 "''aabbcc''", THEN conjunct1]
    by simp
  from a b c show ?thesis by blast
qed

lemma merge_open_fails:
  "e \<in> set files \<Longrightarrow> cache_openIndex env e = Inl err \<Longrightarrow>
   \<exists>err'. merge_open env files acc used = Inl err'"
proof (induction files arbitrary: acc used)
  case Nil
  then show ?case by simp
next
  case (Cons f files)
  show ?case
  proof (cases "cache_openIndex env f")
    case (Inl e1)
    then show ?thesis by simp
  next
    case (Inr ndx)
    with Cons.prems have "e \<in> set files" by auto
    from Cons.IH [OF this Cons.prems(2)] Inr show ?thesis by simp
  qed
qed

text \<open>
  C10: \<open>use\<close> stores the new deletion watermark before anything else, so the watermark
  of the resulting state is always the new one. When the set of index files is unchanged
  nothing else happens. Otherwise the requested indexes are opened and combined: when
  opening one of them fails, or opening succeeds and combining fails, \<open>use\<close> returns an
  error, and the state is the old one with only the watermark replaced (\<open>merged\<close>,
  \<open>inUse\<close> and the revision counter are unchanged). Conversely, every error that \<open>use\<close>
  returns is such an error and leaves such a state; and when opening and combining
  succeed, \<open>use\<close> returns no error, swaps in the new indexes and bumps the revision.
\<close>

theorem use_error_only_watermark:
  "deletionWatermark (snd (use env c files w)) = w
   \<and> (\<not> indexFilesChanged c files \<longrightarrow>
        use env c files w = (None, c\<lparr>deletionWatermark := w\<rparr>))
   \<and> (\<forall>e err. indexFilesChanged c files \<and> e \<in> set files \<and> cache_openIndex env e = Inl err
        \<longrightarrow> (\<exists>err'. use env c files w = (Some err', c\<lparr>deletionWatermark := w\<rparr>)))
   \<and> (\<forall>err. indexFilesChanged c files \<and> merge_open env files [] Map.empty = Inl err
        \<longrightarrow> use env c files w = (Some err, c\<lparr>deletionWatermark := w\<rparr>))
   \<and> (\<forall>m0 u err. indexFilesChanged c files
          \<and> merge_open env files [] Map.empty = Inr (m0, u)
          \<and> combineSmallIndexes env m0 = Inl err
        \<longrightarrow> use env c files w
              = (Some (Wrapped err ''unable to combine small indexes''),
                 c\<lparr>deletionWatermark := w\<rparr>))
   \<and> (\<forall>err. indexFilesChanged c files \<and> merge env files = Inl err
        \<longrightarrow> use env c files w = (Some err, c\<lparr>deletionWatermark := w\<rparr>))
   \<and> (\<forall>m1 u. indexFilesChanged c files \<and> merge env files = Inr (m1, u)
        \<longrightarrow> use env c files w
              = (None, c\<lparr>deletionWatermark := w, rev := wrap64 (rev c + 1),
                         merged := m1, inUse := u\<rparr>))
   \<and> (\<forall>err. fst (use env c files w) = Some err \<longrightarrow>
        indexFilesChanged c files \<and> merge env files = Inl err
        \<and> snd (use env c files w) = c\<lparr>deletionWatermark := w\<rparr>
        \<and> merged (snd (use env c files w)) = merged c
        \<and> inUse (snd (use env c files w)) = inUse c
        \<and> rev (snd (use env c files w)) = rev c)"
proof -
  have ch: "indexFilesChanged (c\<lparr>deletionWatermark := w\<rparr>) files = indexFilesChanged c files"
    by (simp add: indexFilesChanged_def)
  have p1: "deletionWatermark (snd (use env c files w)) = w"
    by (auto simp: use_def Let_def split: sum.splits prod.splits)
  have p2: "\<not> indexFilesChanged c files \<longrightarrow>
        use env c files w = (None, c\<lparr>deletionWatermark := w\<rparr>)"
    by (simp add: use_def Let_def ch)
  have p6: "\<forall>err. indexFilesChanged c files \<and> merge env files = Inl err
        \<longrightarrow> use env c files w = (Some err, c\<lparr>deletionWatermark := w\<rparr>)"
    by (simp add: use_def Let_def ch)
  have p4: "\<forall>err. indexFilesChanged c files \<and> merge_open env files [] Map.empty = Inl err
        \<longrightarrow> use env c files w = (Some err, c\<lparr>deletionWatermark := w\<rparr>)"
    using p6 by (simp add: merge_def)
  have p3: "\<forall>e err. indexFilesChanged c files \<and> e \<in> set files
        \<and> cache_openIndex env e = Inl err
        \<longrightarrow> (\<exists>err'. use env c files w = (Some err', c\<lparr>deletionWatermark := w\<rparr>))"
  proof (intro allI impI)
    fix e err
    assume h: "indexFilesChanged c files \<and> e \<in> set files \<and> cache_openIndex env e = Inl err"
    then obtain err' where "merge_open env files [] Map.empty = Inl err'"
      using merge_open_fails [of e files env err "[]" Map.empty] by blast
    with p4 h show "\<exists>err'. use env c files w = (Some err', c\<lparr>deletionWatermark := w\<rparr>)"
      by blast
  qed
  have p5: "\<forall>m0 u err. indexFilesChanged c files
          \<and> merge_open env files [] Map.empty = Inr (m0, u)
          \<and> combineSmallIndexes env m0 = Inl err
        \<longrightarrow> use env c files w
              = (Some (Wrapped err ''unable to combine small indexes''),
                 c\<lparr>deletionWatermark := w\<rparr>)"
    using p6 by (simp add: merge_def)
  have p7: "\<forall>m1 u. indexFilesChanged c files \<and> merge env files = Inr (m1, u)
        \<longrightarrow> use env c files w
              = (None, c\<lparr>deletionWatermark := w, rev := wrap64 (rev c + 1),
                         merged := m1, inUse := u\<rparr>)"
    by (simp add: use_def Let_def ch)
  have p8: "\<forall>err. fst (use env c files w) = Some err \<longrightarrow>
        indexFilesChanged c files \<and> merge env files = Inl err
        \<and> snd (use env c files w) = c\<lparr>deletionWatermark := w\<rparr>
        \<and> merged (snd (use env c files w)) = merged c
        \<and> inUse (snd (use env c files w)) = inUse c
        \<and> rev (snd (use env c files w)) = rev c"
    by (auto simp: use_def Let_def ch split: sum.splits prod.splits if_splits)
  from p1 p2 p3 p4 p5 p6 p7 p8 show ?thesis by blast
qed

theorem use_error_only_watermark_witness:
  "use env_open_fails nothing_in_use [''xn0_1''] 500
     = (Some (Wrapped (Errorf ''blob not found'') ''unable to open pack index''),
        nothing_in_use\<lparr>deletionWatermark := 500\<rparr>)
   \<and> use env_build_fails nothing_in_use [''xn0_1'', ''xn0_2''] 500
     = (Some (Wrapped (Wrapped (Errorf ''build failed'')
                ''error building combined in-memory index'')
              ''unable to combine small indexes''),
        nothing_in_use\<lparr>deletionWatermark := 500\<rparr>)
   \<and> rev (snd (use env_build_fails nothing_in_use [''xn0_1'', ''xn0_2''] 500)) = 7
   \<and> deletionWatermark (snd (use env_build_fails nothing_in_use [''xn0_1'', ''xn0_2''] 500))
       = 500"
proof -
  have ch1: "indexFilesChanged nothing_in_use [''xn0_1'']"
    by (simp add: indexFilesChanged_def nothing_in_use_def)
  have ch2: "indexFilesChanged nothing_in_use [''xn0_1'', ''xn0_2'']"
    by (simp add: indexFilesChanged_def nothing_in_use_def)
  have o: "merge_open env_open_fails [''xn0_1''] [] Map.empty
      = Inl (Wrapped (Errorf ''blob not found'') ''unable to open pack index'')"
    by (simp add: env_open_fails_def)
  have a: "use env_open_fails nothing_in_use [''xn0_1''] 500
     = (Some (Wrapped (Errorf ''blob not found'') ''unable to open pack index''),
        nothing_in_use\<lparr>deletionWatermark := 500\<rparr>)"
    using use_error_only_watermark [of env_open_fails nothing_in_use "[''xn0_1'']" 500,
        THEN conjunct2, THEN conjunct2, THEN conjunct2, THEN conjunct1] ch1 o
    by blast
  have mo: "merge_open env_build_fails [''xn0_1'', ''xn0_2''] [] Map.empty
      = Inr ([test_i1, test_i1], [''xn0_1'' \<mapsto> test_i1, ''xn0_2'' \<mapsto> test_i1])"
    by (simp add: env_build_fails_def)
  have cf: "combineSmallIndexes env_build_fails [test_i1, test_i1]
      = Inl (Wrapped (Errorf ''build failed'') ''error building combined in-memory index'')"
    by (simp add: combineSmallIndexes_def env_build_fails_def test_i1_def
        indexWithItems_def smallIndexEntryCountThreshold_def Let_def)
  have b: "use env_build_fails nothing_in_use [''xn0_1'', ''xn0_2''] 500
     = (Some (Wrapped (Wrapped (Errorf ''build failed'')
                ''error building combined in-memory index'')
              ''unable to combine small indexes''),
        nothing_in_use\<lparr>deletionWatermark := 500\<rparr>)"
    using use_error_only_watermark [of env_build_fails nothing_in_use
        "[''xn0_1'', ''xn0_2'']" 500,
        THEN conjunct2, THEN conjunct2, THEN conjunct2, THEN conjunct2, THEN conjunct1]
      ch2 mo cf
    by blast
  from a b show ?thesis by (simp add: nothing_in_use_def)
qed

subsection \<open>Snapshot garbage collector\<close>

lemmas sweep_defs = sweep_callback_def UndeleteContent_def DeleteContent_def Flush_def
  CountSum_Add_def is_system_def content_age_def Let_def

lemma sweep_callback_deleteCalls:
  "sweep_callback env used gcDelete m st x = (e, st') \<Longrightarrow>
   deleteCalls st' = deleteCalls st
   \<or> (deleteCalls st' = deleteCalls st @ [GetContentID (snd x)] \<and> gcDelete
       \<and> \<not> is_system env (snd x) \<and> GetContentID (snd x) \<notin> used \<and> \<not> content_age x < m)"
  by (cases x) (auto simp: sweep_defs split: if_splits option.splits prod.splits)

lemma sweep_callback_counts:
  "sweep_callback env used gcDelete m st x = (None, st') \<Longrightarrow>
   cs_count (st_tooRecent st') = cs_count (st_tooRecent st)
      + (if \<not> is_system env (snd x) \<and> GetContentID (snd x) \<notin> used \<and> content_age x < m
         then 1 else 0)
   \<and> cs_count (st_undeleted st') = cs_count (st_undeleted st)
      + (if \<not> is_system env (snd x) \<and> GetContentID (snd x) \<in> used \<and> GetDeleted (snd x)
         then 1 else 0)
   \<and> cs_count (st_inUse st') = cs_count (st_inUse st)
      + (if \<not> is_system env (snd x) \<and> GetContentID (snd x) \<in> used then 1 else 0)
   \<and> cs_count (st_system st') = cs_count (st_system st)
      + (if is_system env (snd x) then 1 else 0)"
  by (cases x) (auto simp: sweep_defs split: if_splits option.splits prod.splits)

lemma sweep_callback_keeps_undeleted:
  "sweep_callback env used gcDelete m st x = (e, st') \<Longrightarrow> cid \<in> used \<Longrightarrow>
   \<not> repo_deleted st cid \<Longrightarrow> \<not> repo_deleted st' cid"
  by (cases x) (auto simp: sweep_defs split: if_splits option.splits prod.splits)

lemma sweep_callback_undeleteCalls_mono:
  "sweep_callback env used gcDelete m st x = (e, st') \<Longrightarrow>
   set (undeleteCalls st) \<subseteq> set (undeleteCalls st')"
  by (cases x) (auto simp: sweep_defs split: if_splits option.splits prod.splits)

lemma sweep_callback_undeletes:
  "sweep_callback env used gcDelete m st x = (None, st') \<Longrightarrow>
   \<not> is_system env (snd x) \<Longrightarrow> GetContentID (snd x) \<in> used \<Longrightarrow> GetDeleted (snd x) \<Longrightarrow>
   GetContentID (snd x) \<in> set (undeleteCalls st') \<and> \<not> repo_deleted st' (GetContentID (snd x))"
  by (cases x) (auto simp: sweep_defs split: if_splits option.splits prod.splits)

lemma IterateContents_deleteCalls:
  "IterateContents (sweep_callback env used gcDelete m) xs st = (e, st') \<Longrightarrow>
   cid \<in> set (deleteCalls st') \<Longrightarrow>
   cid \<in> set (deleteCalls st)
   \<or> (\<exists>x\<in>set xs. GetContentID (snd x) = cid \<and> gcDelete \<and> \<not> is_system env (snd x)
         \<and> cid \<notin> used \<and> \<not> content_age x < m)"
proof (induction xs arbitrary: st)
  case Nil
  then show ?case by simp
next
  case (Cons x xs)
  obtain e1 st1 where step: "sweep_callback env used gcDelete m st x = (e1, st1)"
    by (cases "sweep_callback env used gcDelete m st x") auto
  note d = sweep_callback_deleteCalls [OF step]
  show ?case
  proof (cases e1)
    case None
    with step Cons.prems(1)
    have "IterateContents (sweep_callback env used gcDelete m) xs st1 = (e, st')" by simp
    from Cons.IH [OF this Cons.prems(2)] d show ?thesis by auto
  next
    case (Some err)
    with step Cons.prems(1) have "st' = st1" by simp
    with d Cons.prems(2) show ?thesis by auto
  qed
qed

lemma IterateContents_counts:
  "IterateContents (sweep_callback env used gcDelete m) xs st = (None, st') \<Longrightarrow>
   cs_count (st_tooRecent st') = cs_count (st_tooRecent st)
      + length (filter (\<lambda>x. \<not> is_system env (snd x) \<and> GetContentID (snd x) \<notin> used
                            \<and> content_age x < m) xs)
   \<and> cs_count (st_undeleted st') = cs_count (st_undeleted st)
      + length (filter (\<lambda>x. \<not> is_system env (snd x) \<and> GetContentID (snd x) \<in> used
                            \<and> GetDeleted (snd x)) xs)
   \<and> cs_count (st_inUse st') = cs_count (st_inUse st)
      + length (filter (\<lambda>x. \<not> is_system env (snd x) \<and> GetContentID (snd x) \<in> used) xs)
   \<and> cs_count (st_system st') = cs_count (st_system st)
      + length (filter (\<lambda>x. is_system env (snd x)) xs)"
proof (induction xs arbitrary: st)
  case Nil
  then show ?case by simp
next
  case (Cons x xs)
  obtain e1 st1 where step: "sweep_callback env used gcDelete m st x = (e1, st1)"
    by (cases "sweep_callback env used gcDelete m st x") auto
  with Cons.prems have e1: "e1 = None" by (cases e1) auto
  with step Cons.prems
  have rest: "IterateContents (sweep_callback env used gcDelete m) xs st1 = (None, st')"
    by simp
  from sweep_callback_counts [OF step [unfolded e1]] Cons.IH [OF rest]
  show ?case by simp
qed

lemma IterateContents_keeps_undeleted:
  "IterateContents (sweep_callback env used gcDelete m) xs st = (e, st') \<Longrightarrow>
   cid \<in> used \<Longrightarrow> \<not> repo_deleted st cid \<Longrightarrow> \<not> repo_deleted st' cid"
proof (induction xs arbitrary: st)
  case Nil
  then show ?case by simp
next
  case (Cons x xs)
  obtain e1 st1 where step: "sweep_callback env used gcDelete m st x = (e1, st1)"
    by (cases "sweep_callback env used gcDelete m st x") auto
  from sweep_callback_keeps_undeleted [OF step Cons.prems(2,3)]
  have k: "\<not> repo_deleted st1 cid" .
  show ?case
  proof (cases e1)
    case None
    with step Cons.prems(1)
    have "IterateContents (sweep_callback env used gcDelete m) xs st1 = (e, st')" by simp
    from Cons.IH [OF this Cons.prems(2) k] show ?thesis .
  next
    case (Some err)
    with step Cons.prems(1) have "st' = st1" by simp
    with k show ?thesis by simp
  qed
qed

lemma IterateContents_undeleteCalls_mono:
  "IterateContents (sweep_callback env used gcDelete m) xs st = (e, st') \<Longrightarrow>
   set (undeleteCalls st) \<subseteq> set (undeleteCalls st')"
proof (induction xs arbitrary: st)
  case Nil
  then show ?case by simp
next
  case (Cons x xs)
  obtain e1 st1 where step: "sweep_callback env used gcDelete m st x = (e1, st1)"
    by (cases "sweep_callback env used gcDelete m st x") auto
  note mono = sweep_callback_undeleteCalls_mono [OF step]
  show ?case
  proof (cases e1)
    case None
    with step Cons.prems
    have "IterateContents (sweep_callback env used gcDelete m) xs st1 = (e, st')" by simp
    from Cons.IH [OF this] mono show ?thesis by blast
  next
    case (Some err)
    with step Cons.prems have "st' = st1" by simp
    with mono show ?thesis by simp
  qed
qed

lemma IterateContents_undeletes:
  "IterateContents (sweep_callback env used gcDelete m) xs st = (None, st') \<Longrightarrow>
   x \<in> set xs \<Longrightarrow> \<not> is_system env (snd x) \<Longrightarrow> GetContentID (snd x) \<in> used \<Longrightarrow>
   GetDeleted (snd x) \<Longrightarrow>
   GetContentID (snd x) \<in> set (undeleteCalls st') \<and> \<not> repo_deleted st' (GetContentID (snd x))"
proof (induction xs arbitrary: st)
  case Nil
  then show ?case by simp
next
  case (Cons y ys)
  obtain e1 st1 where step: "sweep_callback env used gcDelete m st y = (e1, st1)"
    by (cases "sweep_callback env used gcDelete m st y") auto
  with Cons.prems(1) have e1: "e1 = None" by (cases e1) auto
  with step Cons.prems(1)
  have rest: "IterateContents (sweep_callback env used gcDelete m) ys st1 = (None, st')"
    by simp
  show ?case
  proof (cases "x = y")
    case True
    from sweep_callback_undeletes [OF step [unfolded e1]] True Cons.prems(3,4,5)
    have "GetContentID (snd x) \<in> set (undeleteCalls st1)"
      and "\<not> repo_deleted st1 (GetContentID (snd x))" by auto
    with IterateContents_undeleteCalls_mono [OF rest]
      IterateContents_keeps_undeleted [OF rest Cons.prems(4)]
    show ?thesis by blast
  next
    case False
    with Cons.prems(2) have "x \<in> set ys" by simp
    from Cons.IH [OF rest this Cons.prems(3,4,5)] show ?thesis .
  qed
qed

lemma Run_sweep:
  "\<exists>e1 st1. IterateContents (sweep_callback env used gcDelete m) xs st = (e1, st1)
     \<and> (fst (Run env (Inr used) gcDelete m xs st) = None \<longrightarrow> e1 = None)
     \<and> deleteCalls (snd (Run env (Inr used) gcDelete m xs st)) = deleteCalls st1
     \<and> undeleteCalls (snd (Run env (Inr used) gcDelete m xs st)) = undeleteCalls st1
     \<and> repo_deleted (snd (Run env (Inr used) gcDelete m xs st)) = repo_deleted st1
     \<and> st_tooRecent (snd (Run env (Inr used) gcDelete m xs st)) = st_tooRecent st1
     \<and> st_undeleted (snd (Run env (Inr used) gcDelete m xs st)) = st_undeleted st1
     \<and> st_inUse (snd (Run env (Inr used) gcDelete m xs st)) = st_inUse st1"
  by (cases "IterateContents (sweep_callback env used gcDelete m) xs st")
    (auto simp: Run_def runInternal_def Flush_def Wrap_def split: option.splits prod.splits)

lemma Run_mark_failed:
  "snd (Run env (Inl err) gcDelete m xs st) = st"
  by (simp add: Run_def runInternal_def Wrap_def)

lemma distinct_map_eq:
  "distinct (map f xs) \<Longrightarrow> x \<in> set xs \<Longrightarrow> y \<in> set xs \<Longrightarrow> f x = f y \<Longrightarrow> x = y"
  by (meson distinct_map inj_onD)

lemmas gc_eval = Run_def runInternal_def sweep_callback_def UndeleteContent_def
  DeleteContent_def Flush_def CountSum_Add_def Wrap_def gc_init_def example_gc_env_def
  InfoStruct_def content_age_def time_Sub_def Timestamp_def time_Unix_def one_hour_def
  is_system_def Let_def wrap64_def

text \<open>
  C2 (as stated, refuted in its second half): a manifest content written ten minutes ago
  is referenced by no snapshot and is younger than the one-hour safety window, yet the run
  counts it in the \<open>system\<close> bucket and the \<open>tooRecent\<close> bucket stays empty.
\<close>

theorem tooRecent_system_counterexample:
  "GetContentID (snd recent_manifest_content) \<notin> {}
   \<and> content_age recent_manifest_content < one_hour
   \<and> fst (Run example_gc_env (Inr {}) True one_hour [recent_manifest_content]
        (gc_init (\<lambda>cid. False))) = None
   \<and> cs_count (st_tooRecent (snd (Run example_gc_env (Inr {}) True one_hour
        [recent_manifest_content] (gc_init (\<lambda>cid. False))))) = 0
   \<and> cs_count (st_system (snd (Run example_gc_env (Inr {}) True one_hour
        [recent_manifest_content] (gc_init (\<lambda>cid. False))))) = 1"
  by (simp add: gc_eval recent_manifest_content_def)

text \<open>
  C2 (amended): during any run of the collector, every ID passed to \<open>DeleteContent\<close> is
  the ID of a visited content whose age (repository time minus its timestamp) is not less
  than \<open>MinContentAgeSubjectToGC\<close> (and which is unreferenced and not a system content);
  so, content IDs being distinct, no content younger than the safety window is ever
  passed to \<open>DeleteContent\<close>, referenced or not. When the sweep visits every content,
  the \<open>tooRecent\<close> bucket counts exactly the contents that are unreferenced, younger than
  the window and do not carry the manifest prefix; contents with the manifest prefix are
  counted as \<open>system\<close> instead.
\<close>

theorem Run_never_deletes_recent:
  "(\<forall>cid\<in>set (deleteCalls (snd (Run env mark gcDelete m contents (gc_init d0)))).
      \<exists>used. mark = Inr used \<and> gcDelete
        \<and> (\<exists>x\<in>set contents. GetContentID (snd x) = cid \<and> \<not> content_age x < m
              \<and> cid \<notin> used \<and> \<not> is_system env (snd x)))
   \<and> (distinct (map (\<lambda>x. GetContentID (snd x)) contents) \<longrightarrow>
        (\<forall>x\<in>set contents. content_age x < m \<longrightarrow>
           GetContentID (snd x) \<notin> set (deleteCalls (snd (Run env mark gcDelete m contents
              (gc_init d0))))))
   \<and> (\<forall>used. mark = Inr used
          \<and> fst (IterateContents (sweep_callback env used gcDelete m) contents (gc_init d0))
              = None \<longrightarrow>
        cs_count (st_tooRecent (snd (Run env mark gcDelete m contents (gc_init d0))))
          = length (filter (\<lambda>x. \<not> is_system env (snd x) \<and> GetContentID (snd x) \<notin> used
                                  \<and> content_age x < m) contents))"
proof -
  let ?st' = "snd (Run env mark gcDelete m contents (gc_init d0))"
  have A: "\<forall>cid\<in>set (deleteCalls ?st').
      \<exists>used. mark = Inr used \<and> gcDelete
        \<and> (\<exists>x\<in>set contents. GetContentID (snd x) = cid \<and> \<not> content_age x < m
              \<and> cid \<notin> used \<and> \<not> is_system env (snd x))"
  proof (cases mark)
    case (Inl err)
    then show ?thesis by (simp add: Run_mark_failed gc_init_def)
  next
    case (Inr used)
    from Run_sweep [of env used gcDelete m contents "gc_init d0"]
    obtain e1 st1 where it:
      "IterateContents (sweep_callback env used gcDelete m) contents (gc_init d0) = (e1, st1)"
      and dc: "deleteCalls (snd (Run env (Inr used) gcDelete m contents (gc_init d0)))
                = deleteCalls st1"
      by blast
    show ?thesis
    proof
      fix cid assume "cid \<in> set (deleteCalls ?st')"
      with dc Inr have "cid \<in> set (deleteCalls st1)" by simp
      from IterateContents_deleteCalls [OF it this]
      have "\<exists>x\<in>set contents. GetContentID (snd x) = cid \<and> gcDelete
             \<and> \<not> is_system env (snd x) \<and> cid \<notin> used \<and> \<not> content_age x < m"
        by (simp add: gc_init_def)
      with Inr show "\<exists>used. mark = Inr used \<and> gcDelete
        \<and> (\<exists>x\<in>set contents. GetContentID (snd x) = cid \<and> \<not> content_age x < m
              \<and> cid \<notin> used \<and> \<not> is_system env (snd x))"
        by blast
    qed
  qed
  have B: "distinct (map (\<lambda>x. GetContentID (snd x)) contents) \<longrightarrow>
        (\<forall>x\<in>set contents. content_age x < m \<longrightarrow>
           GetContentID (snd x) \<notin> set (deleteCalls ?st'))"
  proof (intro impI ballI notI)
    fix x
    assume d: "distinct (map (\<lambda>x. GetContentID (snd x)) contents)"
      and x: "x \<in> set contents" and young: "content_age x < m"
      and mem: "GetContentID (snd x) \<in> set (deleteCalls ?st')"
    from A [rule_format, OF mem] obtain y where y: "y \<in> set contents"
      and eq: "GetContentID (snd y) = GetContentID (snd x)"
      and old: "\<not> content_age y < m" by auto
    from distinct_map_eq [OF d y x eq] have "y = x" .
    with old young show False by simp
  qed
  have C: "\<forall>used. mark = Inr used
          \<and> fst (IterateContents (sweep_callback env used gcDelete m) contents (gc_init d0))
              = None \<longrightarrow>
        cs_count (st_tooRecent ?st')
          = length (filter (\<lambda>x. \<not> is_system env (snd x) \<and> GetContentID (snd x) \<notin> used
                                  \<and> content_age x < m) contents)"
  proof (intro allI impI)
    fix used
    assume h: "mark = Inr used
      \<and> fst (IterateContents (sweep_callback env used gcDelete m) contents (gc_init d0)) = None"
    from Run_sweep [of env used gcDelete m contents "gc_init d0"]
    obtain e1 st1 where it:
      "IterateContents (sweep_callback env used gcDelete m) contents (gc_init d0) = (e1, st1)"
      and tr: "st_tooRecent (snd (Run env (Inr used) gcDelete m contents (gc_init d0)))
                = st_tooRecent st1"
      by blast
    from h it have "e1 = None" by simp
    from IterateContents_counts [OF it [unfolded this]] tr h
    show "cs_count (st_tooRecent ?st')
          = length (filter (\<lambda>x. \<not> is_system env (snd x) \<and> GetContentID (snd x) \<notin> used
                                  \<and> content_age x < m) contents)"
      by (simp add: gc_init_def)
  qed
  from A B C show ?thesis by blast
qed

theorem Run_never_deletes_recent_witness:
  "distinct (map (\<lambda>x. GetContentID (snd x)) [recent_content, old_content])
   \<and> content_age recent_content < one_hour
   \<and> GetContentID (snd recent_content)
       \<notin> set (deleteCalls (snd (Run example_gc_env (Inr {}) True one_hour
            [recent_content, old_content] (gc_init (\<lambda>cid. False)))))
   \<and> cs_count (st_tooRecent (snd (Run example_gc_env (Inr {}) True one_hour
            [recent_content, old_content] (gc_init (\<lambda>cid. False))))) = 1
   \<and> deleteCalls (snd (Run example_gc_env (Inr {}) True one_hour
            [recent_content, old_content] (gc_init (\<lambda>cid. False)))) = [''ddeeff'']"
proof -
  note inst = Run_never_deletes_recent [of example_gc_env "Inr {}" True one_hour
      "[recent_content, old_content]" "\<lambda>cid. False"]
  have d: "distinct (map (\<lambda>x. GetContentID (snd x)) [recent_content, old_content])"
    by (simp add: recent_content_def old_content_def InfoStruct_def)
  have y: "content_age recent_content < one_hour"
    by (simp add: gc_eval recent_content_def)
  from inst [THEN conjunct2, THEN conjunct1, rule_format, OF d, of recent_content] y
  have a: "GetContentID (snd recent_content)
       \<notin> set (deleteCalls (snd (Run example_gc_env (Inr {}) True one_hour
            [recent_content, old_content] (gc_init (\<lambda>cid. False)))))"
    by simp
  have it: "fst (IterateContents (sweep_callback example_gc_env {} True one_hour)
      [recent_content, old_content] (gc_init (\<lambda>cid. False))) = None"
    by (simp add: gc_eval recent_content_def old_content_def)
  from inst [THEN conjunct2, THEN conjunct2, rule_format, of "{}"] it
  have b: "cs_count (st_tooRecent (snd (Run example_gc_env (Inr {}) True one_hour
            [recent_content, old_content] (gc_init (\<lambda>cid. False))))) = 1"
    by (simp add: gc_eval recent_content_def old_content_def)
  have c: "deleteCalls (snd (Run example_gc_env (Inr {}) True one_hour
            [recent_content, old_content] (gc_init (\<lambda>cid. False)))) = [''ddeeff'']"
    by (simp add: gc_eval recent_content_def old_content_def)
  from d y a b c show ?thesis by blast
qed

text \<open>
  C3 (as stated, refuted): a content that carries the manifest prefix, is in the mark set
  and is marked deleted. \<open>Run\<close> with \<open>gcDelete = true\<close> succeeds without calling
  \<open>UndeleteContent\<close>; the content stays marked deleted and is counted neither as
  \<open>undeleted\<close> nor as \<open>inUse\<close>.
\<close>

theorem undelete_system_counterexample:
  "GetContentID (snd deleted_manifest_content) \<in> {''m0a1b2c''}
   \<and> GetDeleted (snd deleted_manifest_content)
   \<and> fst (Run example_gc_env (Inr {''m0a1b2c''}) True one_hour [deleted_manifest_content]
        (gc_init (\<lambda>cid. cid = ''m0a1b2c''))) = None
   \<and> undeleteCalls (snd (Run example_gc_env (Inr {''m0a1b2c''}) True one_hour
        [deleted_manifest_content] (gc_init (\<lambda>cid. cid = ''m0a1b2c'')))) = []
   \<and> repo_deleted (snd (Run example_gc_env (Inr {''m0a1b2c''}) True one_hour
        [deleted_manifest_content] (gc_init (\<lambda>cid. cid = ''m0a1b2c'')))) ''m0a1b2c''
   \<and> cs_count (st_undeleted (snd (Run example_gc_env (Inr {''m0a1b2c''}) True one_hour
        [deleted_manifest_content] (gc_init (\<lambda>cid. cid = ''m0a1b2c''))))) = 0
   \<and> cs_count (st_inUse (snd (Run example_gc_env (Inr {''m0a1b2c''}) True one_hour
        [deleted_manifest_content] (gc_init (\<lambda>cid. cid = ''m0a1b2c''))))) = 0"
  by (simp add: gc_eval deleted_manifest_content_def)

text \<open>
  C3 (amended): for every content of the repository that does not carry the manifest
  prefix, whose ID is in the mark set and that is marked deleted: after \<open>Run\<close> completes
  successfully (with \<open>gcDelete\<close> set or not), \<open>UndeleteContent\<close> has been invoked on it, it
  is no longer marked deleted, and it is among the contents counted in the \<open>undeleted\<close>
  bucket and among those counted in the \<open>inUse\<close> bucket.
\<close>

theorem Run_undeletes_referenced:
  assumes ok: "fst (Run env (Inr used) gcDelete m contents (gc_init d0)) = None"
    and x: "x \<in> set contents"
    and ref: "GetContentID (snd x) \<in> used"
    and del: "GetDeleted (snd x)"
    and nonsys: "\<not> is_system env (snd x)"
  shows "GetContentID (snd x)
           \<in> set (undeleteCalls (snd (Run env (Inr used) gcDelete m contents (gc_init d0))))
    \<and> \<not> repo_deleted (snd (Run env (Inr used) gcDelete m contents (gc_init d0)))
          (GetContentID (snd x))
    \<and> cs_count (st_undeleted (snd (Run env (Inr used) gcDelete m contents (gc_init d0))))
        = length (filter (\<lambda>y. \<not> is_system env (snd y) \<and> GetContentID (snd y) \<in> used
                                \<and> GetDeleted (snd y)) contents)
    \<and> cs_count (st_inUse (snd (Run env (Inr used) gcDelete m contents (gc_init d0))))
        = length (filter (\<lambda>y. \<not> is_system env (snd y) \<and> GetContentID (snd y) \<in> used)
            contents)
    \<and> x \<in> set (filter (\<lambda>y. \<not> is_system env (snd y) \<and> GetContentID (snd y) \<in> used
                                \<and> GetDeleted (snd y)) contents)
    \<and> x \<in> set (filter (\<lambda>y. \<not> is_system env (snd y) \<and> GetContentID (snd y) \<in> used)
            contents)"
proof -
  from Run_sweep [of env used gcDelete m contents "gc_init d0"] ok
  obtain st1 where it:
    "IterateContents (sweep_callback env used gcDelete m) contents (gc_init d0) = (None, st1)"
    and uc: "undeleteCalls (snd (Run env (Inr used) gcDelete m contents (gc_init d0)))
              = undeleteCalls st1"
    and rd: "repo_deleted (snd (Run env (Inr used) gcDelete m contents (gc_init d0)))
              = repo_deleted st1"
    and ud: "st_undeleted (snd (Run env (Inr used) gcDelete m contents (gc_init d0)))
              = st_undeleted st1"
    and iu: "st_inUse (snd (Run env (Inr used) gcDelete m contents (gc_init d0)))
              = st_inUse st1"
    by blast
  from IterateContents_undeletes [OF it x nonsys ref del] uc rd
  have a: "GetContentID (snd x)
           \<in> set (undeleteCalls (snd (Run env (Inr used) gcDelete m contents (gc_init d0))))
    \<and> \<not> repo_deleted (snd (Run env (Inr used) gcDelete m contents (gc_init d0)))
          (GetContentID (snd x))"
    by simp
  from IterateContents_counts [OF it] ud iu
  have b: "cs_count (st_undeleted (snd (Run env (Inr used) gcDelete m contents (gc_init d0))))
        = length (filter (\<lambda>y. \<not> is_system env (snd y) \<and> GetContentID (snd y) \<in> used
                                \<and> GetDeleted (snd y)) contents)
    \<and> cs_count (st_inUse (snd (Run env (Inr used) gcDelete m contents (gc_init d0))))
        = length (filter (\<lambda>y. \<not> is_system env (snd y) \<and> GetContentID (snd y) \<in> used)
            contents)"
    by (simp add: gc_init_def)
  from x ref del nonsys a b show ?thesis by simp
qed

theorem Run_undeletes_referenced_witness:
  "fst (Run example_gc_env (Inr {''aabbcc''}) True one_hour [old_deleted_content]
      (gc_init (\<lambda>cid. cid = ''aabbcc''))) = None
   \<and> old_deleted_content \<in> set [old_deleted_content]
   \<and> GetContentID (snd old_deleted_content) \<in> {''aabbcc''}
   \<and> GetDeleted (snd old_deleted_content)
   \<and> \<not> is_system example_gc_env (snd old_deleted_content)
   \<and> ''aabbcc'' \<in> set (undeleteCalls (snd (Run example_gc_env (Inr {''aabbcc''}) True
        one_hour [old_deleted_content] (gc_init (\<lambda>cid. cid = ''aabbcc'')))))
   \<and> \<not> repo_deleted (snd (Run example_gc_env (Inr {''aabbcc''}) True
        one_hour [old_deleted_content] (gc_init (\<lambda>cid. cid = ''aabbcc'')))) ''aabbcc''
   \<and> cs_count (st_undeleted (snd (Run example_gc_env (Inr {''aabbcc''}) True
        one_hour [old_deleted_content] (gc_init (\<lambda>cid. cid = ''aabbcc''))))) = 1
   \<and> cs_count (st_inUse (snd (Run example_gc_env (Inr {''aabbcc''}) True
        one_hour [old_deleted_content] (gc_init (\<lambda>cid. cid = ''aabbcc''))))) = 1"
proof -
  have ok: "fst (Run example_gc_env (Inr {''aabbcc''}) True one_hour [old_deleted_content]
      (gc_init (\<lambda>cid. cid = ''aabbcc''))) = None"
    by (simp add: gc_eval old_deleted_content_def)
  have x: "old_deleted_content \<in> set [old_deleted_content]" by simp
  have r: "GetContentID (snd old_deleted_content) \<in> {''aabbcc''}"
    by (simp add: old_deleted_content_def InfoStruct_def)
  have dl: "GetDeleted (snd old_deleted_content)"
    by (simp add: old_deleted_content_def InfoStruct_def)
  have ns: "\<not> is_system example_gc_env (snd old_deleted_content)"
    by (simp add: old_deleted_content_def InfoStruct_def is_system_def example_gc_env_def)
  have cid_eq: "GetContentID (snd old_deleted_content) = ''aabbcc''"
    by (simp add: old_deleted_content_def InfoStruct_def)
  from Run_undeletes_referenced [OF ok x r dl ns] cid_eq
  have "''aabbcc'' \<in> set (undeleteCalls (snd (Run example_gc_env (Inr {''aabbcc''}) True
        one_hour [old_deleted_content] (gc_init (\<lambda>cid. cid = ''aabbcc'')))))
   \<and> \<not> repo_deleted (snd (Run example_gc_env (Inr {''aabbcc''}) True
        one_hour [old_deleted_content] (gc_init (\<lambda>cid. cid = ''aabbcc'')))) ''aabbcc''
   \<and> cs_count (st_undeleted (snd (Run example_gc_env (Inr {''aabbcc''}) True
        one_hour [old_deleted_content] (gc_init (\<lambda>cid. cid = ''aabbcc''))))) = 1
   \<and> cs_count (st_inUse (snd (Run example_gc_env (Inr {''aabbcc''}) True
        one_hour [old_deleted_content] (gc_init (\<lambda>cid. cid = ''aabbcc''))))) = 1"
    using dl ns by simp
  with ok x r dl ns show ?thesis by blast
qed

subsection \<open>Directory manifest builder\<close>

lemma wrap64_add_nonneg:
  "0 \<le> a \<Longrightarrow> 0 \<le> b \<Longrightarrow> a + b < 2 ^ 63 \<Longrightarrow> wrap64 (a + b) = a + b"
  by (simp add: wrap64_def)

lemma mset_insert_by: "mset (insert_by lt x xs) = add_mset x (mset xs)"
  by (induction xs) auto

lemma mset_sort_Slice: "mset (sort_Slice lt xs) = mset xs"
  by (induction xs) (auto simp: sort_Slice_def mset_insert_by)

lemma set_sort_Slice: "set (sort_Slice lt xs) = set xs"
  using mset_sort_Slice [of lt xs] by (metis set_mset_mset)

lemma nonneg_member_le_sum_list:
  "\<forall>y\<in>set xs. (0::int) \<le> y \<Longrightarrow> x \<in> set xs \<Longrightarrow> x \<le> sum_list xs"
proof (induction xs)
  case Nil
  then show ?case by simp
next
  case (Cons a xs)
  have "0 \<le> sum_list xs" using Cons.prems(1) by (simp add: sum_list_nonneg)
  with Cons show ?case by auto
qed

lemma run_builder_snoc:
  "run_builder grow h (ops @ [x]) = apply_op grow (run_builder grow h ops) x"
  by (simp add: run_builder_def)

lemma apply_op_entries:
  "entries (snd (apply_op grow hb x)) =
     entries (snd hb) @ (case x of AddEntry de \<Rightarrow> [de] | AddFailedEntry p i e \<Rightarrow> [])"
  by (cases x; cases hb)
    (auto simp: addEntry_def addFailedEntry_def Let_def
      split: EntryType.splits option.splits prod.splits)

lemma apply_op_files:
  "0 \<le> TotalFileCount (summary (snd hb)) \<Longrightarrow> 0 \<le> op_files x \<Longrightarrow>
   TotalFileCount (summary (snd hb)) + op_files x < 2 ^ 63 \<Longrightarrow>
   TotalFileCount (summary (snd (apply_op grow hb x))) = TotalFileCount (summary (snd hb)) + op_files x"
  by (cases x; cases hb)
    (auto simp: addEntry_def addFailedEntry_def Let_def wrap64_add_nonneg
      split: EntryType.splits option.splits prod.splits)

lemma apply_op_size:
  "0 \<le> TotalFileSize (summary (snd hb)) \<Longrightarrow> 0 \<le> op_size x \<Longrightarrow>
   TotalFileSize (summary (snd hb)) + op_size x < 2 ^ 63 \<Longrightarrow>
   TotalFileSize (summary (snd (apply_op grow hb x))) = TotalFileSize (summary (snd hb)) + op_size x"
  by (cases x; cases hb)
    (auto simp: addEntry_def addFailedEntry_def Let_def wrap64_add_nonneg
      split: EntryType.splits option.splits prod.splits)

lemma apply_op_dirs:
  "0 \<le> TotalDirCount (summary (snd hb)) \<Longrightarrow> 0 \<le> op_dirs x \<Longrightarrow>
   TotalDirCount (summary (snd hb)) + op_dirs x < 2 ^ 63 \<Longrightarrow>
   TotalDirCount (summary (snd (apply_op grow hb x))) = TotalDirCount (summary (snd hb)) + op_dirs x"
  by (cases x; cases hb)
    (auto simp: addEntry_def addFailedEntry_def Let_def wrap64_add_nonneg
      split: EntryType.splits option.splits prod.splits)

lemma apply_op_fatal:
  "0 \<le> FatalErrorCount (summary (snd hb)) \<Longrightarrow> 0 \<le> op_fatal x \<Longrightarrow>
   FatalErrorCount (summary (snd hb)) + op_fatal x < 2 ^ 63 \<Longrightarrow>
   FatalErrorCount (summary (snd (apply_op grow hb x))) = FatalErrorCount (summary (snd hb)) + op_fatal x"
  by (cases x; cases hb)
    (auto simp: addEntry_def addFailedEntry_def Let_def wrap64_add_nonneg
      split: EntryType.splits option.splits prod.splits)

lemma apply_op_ignored:
  "0 \<le> IgnoredErrorCount (summary (snd hb)) \<Longrightarrow> 0 \<le> op_ignored x \<Longrightarrow>
   IgnoredErrorCount (summary (snd hb)) + op_ignored x < 2 ^ 63 \<Longrightarrow>
   IgnoredErrorCount (summary (snd (apply_op grow hb x))) = IgnoredErrorCount (summary (snd hb)) + op_ignored x"
  by (cases x; cases hb)
    (auto simp: addEntry_def addFailedEntry_def Let_def wrap64_add_nonneg
      split: EntryType.splits option.splits prod.splits)

lemma apply_op_MaxModTime_mono:
  "MaxModTime (summary (snd hb)) \<le> MaxModTime (summary (snd (apply_op grow hb x)))"
  by (cases x; cases hb)
    (auto simp: addEntry_def addFailedEntry_def Let_def After_def
      split: EntryType.splits option.splits prod.splits)

lemma apply_op_MaxModTime_child:
  "Type c = EntryTypeDirectory \<Longrightarrow> DirSummary c = Some cs \<Longrightarrow>
   MaxModTime cs \<le> MaxModTime (summary (snd (apply_op grow hb (AddEntry c))))"
  by (cases hb)
    (auto simp: addEntry_def Let_def After_def split: prod.splits)

lemma run_builder_entries:
  "set (entries (snd (run_builder grow h ops))) = {c. AddEntry c \<in> set ops}"
proof (induction ops rule: rev_induct)
  case Nil
  then show ?case by (simp add: run_builder_def empty_builder_def)
next
  case (snoc x xs)
  have "set (entries (snd (run_builder grow h (xs @ [x]))))
      = set (entries (snd (run_builder grow h xs)))
        \<union> (case x of AddEntry de \<Rightarrow> {de} | AddFailedEntry p i e \<Rightarrow> {})"
    unfolding run_builder_snoc apply_op_entries by (cases x) simp_all
  with snoc.IH show ?case by (cases x) auto
qed

lemma run_builder_MaxModTime:
  "AddEntry c \<in> set ops \<Longrightarrow> Type c = EntryTypeDirectory \<Longrightarrow> DirSummary c = Some cs \<Longrightarrow>
   MaxModTime cs \<le> MaxModTime (summary (snd (run_builder grow h ops)))"
proof (induction ops rule: rev_induct)
  case Nil
  then show ?case by simp
next
  case (snoc x xs)
  show ?case
  proof (cases "x = AddEntry c")
    case True
    with snoc.prems
      apply_op_MaxModTime_child [of c cs grow "run_builder grow h xs"]
    show ?thesis
      by (simp add: run_builder_snoc)
  next
    case False
    with snoc.prems have "AddEntry c \<in> set xs" by simp
    from snoc.IH [OF this snoc.prems(2,3)]
    have "MaxModTime cs \<le> MaxModTime (summary (snd (run_builder grow h xs)))" .
    also have "\<dots> \<le> MaxModTime (summary (snd (run_builder grow h (xs @ [x]))))"
      by (simp add: run_builder_snoc apply_op_MaxModTime_mono)
    finally show ?thesis .
  qed
qed

lemma run_builder_counter:
  assumes step: "\<And>hb x. 0 \<le> g (summary (snd hb)) \<Longrightarrow> 0 \<le> f x \<Longrightarrow>
      g (summary (snd hb)) + f x < 2 ^ 63 \<Longrightarrow>
      g (summary (snd (apply_op grow hb x))) = g (summary (snd hb)) + f x"
    and zero: "g empty_summary = 0"
    and extra: "0 \<le> extra"
  shows "adds_up f extra ops \<Longrightarrow>
    g (summary (snd (run_builder grow h ops))) = sum_list (map f ops)
    \<and> 0 \<le> sum_list (map f ops)"
proof (induction ops rule: rev_induct)
  case Nil
  then show ?case by (simp add: run_builder_def empty_builder_def zero)
next
  case (snoc x xs)
  from snoc.prems have nx: "0 \<le> f x" and all: "list_all (\<lambda>x. 0 \<le> f x) xs"
    and bound: "sum_list (map f xs) + f x + extra < 2 ^ 63"
    by (simp_all add: adds_up_def)
  from all nx bound have "adds_up f extra xs" by (simp add: adds_up_def)
  from snoc.IH [OF this]
  have ih: "g (summary (snd (run_builder grow h xs))) = sum_list (map f xs)"
    and pos: "0 \<le> sum_list (map f xs)" by simp_all
  from bound extra have "sum_list (map f xs) + f x < 2 ^ 63" by simp
  with ih pos nx
  have "g (summary (snd (apply_op grow (run_builder grow h xs) x)))
      = g (summary (snd (run_builder grow h xs))) + f x"
    by (intro step) simp_all
  with ih pos nx show ?case by (simp add: run_builder_snoc)
qed

lemma adds_up_member:
  "adds_up f extra ops \<Longrightarrow> x \<in> set ops \<Longrightarrow> f x \<le> sum_list (map f ops)"
proof -
  assume a: "adds_up f extra ops" and x: "x \<in> set ops"
  from a have "\<forall>y\<in>set (map f ops). 0 \<le> y" by (auto simp: adds_up_def list_all_iff)
  moreover from x have "f x \<in> set (map f ops)" by simp
  ultimately show ?thesis by (rule nonneg_member_le_sum_list)
qed

text \<open>
  C9 (as stated, refuted), at three inputs. (1) Two subdirectories each hold one sparse
  file of \<open>2^62\<close> bytes: the \<open>int64\<close> sum of the sizes wraps to \<open>- 2^63\<close>, below the
  \<open>TotalFileSize\<close> of child \<open>a\<close>. (2) A subdirectory of 100 bytes next to a file entry of
  size \<open>- 200\<close>: \<open>TotalFileSize\<close> of the manifest is \<open>- 100\<close>, below the child's 100.
  (3) An entry of type file that carries a summary: \<open>addEntry\<close> adds nothing of that
  summary, so the manifest's \<open>TotalFileSize\<close> is 10 against the entry's 100 and its
  \<open>MaxModTime\<close> is 6 against the entry's 50.
\<close>

theorem summary_dominates_counterexample:
  "(subdir_entry ''a'' (2 ^ 62) 5
     \<in> set (Entries (built_manifest double_capacity 10 empty_store two_huge_subdirs 9 []))
   \<and> DirSummary (subdir_entry ''a'' (2 ^ 62) 5) = Some (subdir_summary (2 ^ 62) 5)
   \<and> TotalFileSize (subdir_summary (2 ^ 62) 5) = 2 ^ 62
   \<and> TotalFileSize (Summary (built_manifest double_capacity 10 empty_store
        two_huge_subdirs 9 [])) = - (2 ^ 63)
   \<and> \<not> TotalFileSize (subdir_summary (2 ^ 62) 5)
        \<le> TotalFileSize (Summary (built_manifest double_capacity 10 empty_store
             two_huge_subdirs 9 [])))
   \<and> (subdir_entry ''a'' 100 5
     \<in> set (Entries (built_manifest double_capacity 10 empty_store
          subdir_and_negative_file 9 []))
   \<and> DirSummary (subdir_entry ''a'' 100 5) = Some (subdir_summary 100 5)
   \<and> TotalFileSize (subdir_summary 100 5) = 100
   \<and> TotalFileSize (Summary (built_manifest double_capacity 10 empty_store
        subdir_and_negative_file 9 [])) = - 100
   \<and> \<not> TotalFileSize (subdir_summary 100 5)
        \<le> TotalFileSize (Summary (built_manifest double_capacity 10 empty_store
             subdir_and_negative_file 9 [])))
   \<and> (file_with_summary
     \<in> set (Entries (built_manifest double_capacity 10 empty_store
          [AddEntry file_with_summary] 9 []))
   \<and> DirSummary file_with_summary = Some (subdir_summary 100 50)
   \<and> TotalFileSize (Summary (built_manifest double_capacity 10 empty_store
        [AddEntry file_with_summary] 9 [])) = 10
   \<and> \<not> TotalFileSize (subdir_summary 100 50)
        \<le> TotalFileSize (Summary (built_manifest double_capacity 10 empty_store
             [AddEntry file_with_summary] 9 []))
   \<and> MaxModTime (Summary (built_manifest double_capacity 10 empty_store
        [AddEntry file_with_summary] 9 [])) = 6
   \<and> \<not> MaxModTime (subdir_summary 100 50)
        \<le> MaxModTime (Summary (built_manifest double_capacity 10 empty_store
             [AddEntry file_with_summary] 9 [])))"
  by code_simp

text \<open>
  C9 (amended): for every directory manifest built from a fresh builder by calls of
  \<open>addEntry\<close> and \<open>addFailedEntry\<close>, and every child entry of type directory in its
  entries that carries a summary: the manifest's \<open>MaxModTime\<close> is not earlier than the
  child's; and each of \<open>TotalFileCount\<close>, \<open>TotalFileSize\<close>, \<open>TotalDirCount\<close>,
  \<open>FatalErrorCount\<close> and \<open>IgnoredErrorCount\<close> of the manifest's summary is at least the
  child's, provided the contributions added to that counter are non-negative and their
  sum fits in \<open>int64\<close>. \<open>addEntry\<close> only adds contributions and never subtracts.
\<close>

theorem built_manifest_summary_dominates:
  assumes c: "c \<in> set (Entries (built_manifest grow mx h ops dirModTime reason))"
    and dir: "Type c = EntryTypeDirectory" and cs: "DirSummary c = Some cs"
  shows "MaxModTime cs
           \<le> MaxModTime (Summary (built_manifest grow mx h ops dirModTime reason))
    \<and> (adds_up op_files 0 ops \<longrightarrow> TotalFileCount cs
           \<le> TotalFileCount (Summary (built_manifest grow mx h ops dirModTime reason)))
    \<and> (adds_up op_size 0 ops \<longrightarrow> TotalFileSize cs
           \<le> TotalFileSize (Summary (built_manifest grow mx h ops dirModTime reason)))
    \<and> (adds_up op_dirs 1 ops \<longrightarrow> TotalDirCount cs
           \<le> TotalDirCount (Summary (built_manifest grow mx h ops dirModTime reason)))
    \<and> (adds_up op_fatal 0 ops \<longrightarrow> FatalErrorCount cs
           \<le> FatalErrorCount (Summary (built_manifest grow mx h ops dirModTime reason)))
    \<and> (adds_up op_ignored 0 ops \<longrightarrow> IgnoredErrorCount cs
           \<le> IgnoredErrorCount (Summary (built_manifest grow mx h ops dirModTime reason)))"
proof -
  obtain h1 b where hb: "run_builder grow h ops = (h1, b)"
    by (cases "run_builder grow h ops") auto
  have m: "Summary (built_manifest grow mx h ops dirModTime reason)
      = (if length (entries b) = 0
         then (summary b)\<lparr>TotalDirCount := wrap64 (TotalDirCount (summary b) + 1),
                MaxModTime := dirModTime, IncompleteReason := reason\<rparr>
         else (summary b)\<lparr>TotalDirCount := wrap64 (TotalDirCount (summary b) + 1),
                IncompleteReason := reason\<rparr>)"
    and e: "Entries (built_manifest grow mx h ops dirModTime reason)
      = sort_Slice entry_less (entries b)"
    by (simp_all add: built_manifest_def Build_def hb Let_def split: prod.splits)
  from c e have cin: "c \<in> set (entries b)" by (simp add: set_sort_Slice)
  then have nonempty: "length (entries b) \<noteq> 0" by auto
  from cin run_builder_entries [of grow h ops] hb have op: "AddEntry c \<in> set ops" by simp
  from dir cs have contrib: "op_files (AddEntry c) = TotalFileCount cs"
    "op_size (AddEntry c) = TotalFileSize cs" "op_dirs (AddEntry c) = TotalDirCount cs"
    "op_fatal (AddEntry c) = FatalErrorCount cs"
    "op_ignored (AddEntry c) = IgnoredErrorCount cs"
    by simp_all
  from run_builder_MaxModTime [OF op dir cs, of grow h] hb
  have "MaxModTime cs \<le> MaxModTime (summary b)" by simp
  with m nonempty have mt: "MaxModTime cs
      \<le> MaxModTime (Summary (built_manifest grow mx h ops dirModTime reason))" by simp
  have files: "TotalFileCount cs
      \<le> TotalFileCount (Summary (built_manifest grow mx h ops dirModTime reason))"
    if a: "adds_up op_files 0 ops"
  proof -
    from run_builder_counter [of TotalFileCount op_files grow 0 ops h, OF apply_op_files _ _ a]
      hb
    have "TotalFileCount (summary b) = sum_list (map op_files ops)"
      by (simp add: empty_summary_def)
    with adds_up_member [OF a op] contrib m show ?thesis by simp
  qed
  have size: "TotalFileSize cs
      \<le> TotalFileSize (Summary (built_manifest grow mx h ops dirModTime reason))"
    if a: "adds_up op_size 0 ops"
  proof -
    from run_builder_counter [of TotalFileSize op_size grow 0 ops h, OF apply_op_size _ _ a] hb
    have "TotalFileSize (summary b) = sum_list (map op_size ops)"
      by (simp add: empty_summary_def)
    with adds_up_member [OF a op] contrib m show ?thesis by simp
  qed
  have fatal: "FatalErrorCount cs
      \<le> FatalErrorCount (Summary (built_manifest grow mx h ops dirModTime reason))"
    if a: "adds_up op_fatal 0 ops"
  proof -
    from run_builder_counter [of FatalErrorCount op_fatal grow 0 ops h, OF apply_op_fatal _ _ a]
      hb
    have "FatalErrorCount (summary b) = sum_list (map op_fatal ops)"
      by (simp add: empty_summary_def)
    with adds_up_member [OF a op] contrib m show ?thesis by simp
  qed
  have ignored: "IgnoredErrorCount cs
      \<le> IgnoredErrorCount (Summary (built_manifest grow mx h ops dirModTime reason))"
    if a: "adds_up op_ignored 0 ops"
  proof -
    from run_builder_counter [of IgnoredErrorCount op_ignored grow 0 ops h,
        OF apply_op_ignored _ _ a] hb
    have "IgnoredErrorCount (summary b) = sum_list (map op_ignored ops)"
      by (simp add: empty_summary_def)
    with adds_up_member [OF a op] contrib m show ?thesis by simp
  qed
  have dirs: "TotalDirCount cs
      \<le> TotalDirCount (Summary (built_manifest grow mx h ops dirModTime reason))"
    if a: "adds_up op_dirs 1 ops"
  proof -
    from run_builder_counter [of TotalDirCount op_dirs grow 1 ops h, OF apply_op_dirs _ _ a] hb
    have eq: "TotalDirCount (summary b) = sum_list (map op_dirs ops)"
      and pos: "0 \<le> sum_list (map op_dirs ops)"
      by (simp_all add: empty_summary_def)
    from a have "sum_list (map op_dirs ops) + 1 < 2 ^ 63" by (simp add: adds_up_def)
    with pos have "wrap64 (sum_list (map op_dirs ops) + 1) = sum_list (map op_dirs ops) + 1"
      by (simp add: wrap64_def)
    with eq adds_up_member [OF a op] contrib m show ?thesis by simp
  qed
  from mt files size dirs fatal ignored show ?thesis by blast
qed

theorem built_manifest_summary_dominates_witness:
  "subdir_entry ''b'' 200 7
       \<in> set (Entries (built_manifest double_capacity 10 empty_store two_small_subdirs 9 []))
   \<and> Type (subdir_entry ''b'' 200 7) = EntryTypeDirectory
   \<and> DirSummary (subdir_entry ''b'' 200 7) = Some (subdir_summary 200 7)
   \<and> adds_up op_files 0 two_small_subdirs \<and> adds_up op_size 0 two_small_subdirs
   \<and> adds_up op_dirs 1 two_small_subdirs \<and> adds_up op_fatal 0 two_small_subdirs
   \<and> adds_up op_ignored 0 two_small_subdirs
   \<and> MaxModTime (subdir_summary 200 7)
       \<le> MaxModTime (Summary (built_manifest double_capacity 10 empty_store
            two_small_subdirs 9 []))
   \<and> TotalFileCount (subdir_summary 200 7)
       \<le> TotalFileCount (Summary (built_manifest double_capacity 10 empty_store
            two_small_subdirs 9 []))
   \<and> TotalFileSize (subdir_summary 200 7)
       \<le> TotalFileSize (Summary (built_manifest double_capacity 10 empty_store
            two_small_subdirs 9 []))
   \<and> TotalDirCount (subdir_summary 200 7)
       \<le> TotalDirCount (Summary (built_manifest double_capacity 10 empty_store
            two_small_subdirs 9 []))
   \<and> FatalErrorCount (subdir_summary 200 7)
       \<le> FatalErrorCount (Summary (built_manifest double_capacity 10 empty_store
            two_small_subdirs 9 []))
   \<and> IgnoredErrorCount (subdir_summary 200 7)
       \<le> IgnoredErrorCount (Summary (built_manifest double_capacity 10 empty_store
            two_small_subdirs 9 []))"
proof -
  have c: "subdir_entry ''b'' 200 7
       \<in> set (Entries (built_manifest double_capacity 10 empty_store two_small_subdirs 9 []))"
    by code_simp
  have dir: "Type (subdir_entry ''b'' 200 7) = EntryTypeDirectory"
    by (simp add: subdir_entry_def)
  have cs: "DirSummary (subdir_entry ''b'' 200 7) = Some (subdir_summary 200 7)"
    by (simp add: subdir_entry_def)
  have a: "adds_up op_files 0 two_small_subdirs" "adds_up op_size 0 two_small_subdirs"
    "adds_up op_dirs 1 two_small_subdirs" "adds_up op_fatal 0 two_small_subdirs"
    "adds_up op_ignored 0 two_small_subdirs"
    by code_simp+
  from built_manifest_summary_dominates [OF c dir cs] c dir cs a
  show ?thesis by blast
qed

lemma set_insert_by: "set (insert_by lt x xs) = insert x (set xs)"
  by (induction xs) auto

lemma sorted_insert_by:
  assumes asym: "\<And>a b. lt a b \<Longrightarrow> \<not> lt b a"
    and trans: "\<And>a b c. \<not> lt b a \<Longrightarrow> \<not> lt c b \<Longrightarrow> \<not> lt c a"
  shows "sorted_wrt (\<lambda>a b. \<not> lt b a) xs \<Longrightarrow> sorted_wrt (\<lambda>a b. \<not> lt b a) (insert_by lt x xs)"
proof (induction xs)
  case Nil
  then show ?case by simp
next
  case (Cons y ys)
  show ?case
  proof (cases "lt y x")
    case True
    with Cons asym show ?thesis by (auto simp: set_insert_by)
  next
    case False
    with Cons trans show ?thesis by auto
  qed
qed

lemma sorted_sort_Slice:
  assumes asym: "\<And>a b. lt a b \<Longrightarrow> \<not> lt b a"
    and trans: "\<And>a b c. \<not> lt b a \<Longrightarrow> \<not> lt c b \<Longrightarrow> \<not> lt c a"
  shows "sorted_wrt (\<lambda>a b. \<not> lt b a) (sort_Slice lt xs)"
proof (induction xs)
  case Nil
  then show ?case by (simp add: sort_Slice_def)
next
  case (Cons x xs)
  have "sort_Slice lt (x # xs) = insert_by lt x (sort_Slice lt xs)"
    by (simp add: sort_Slice_def)
  with Cons sorted_insert_by [of lt, OF asym trans] show ?case by simp
qed

lemma sorted_failures:
  "sorted_wrt (\<lambda>a b. EntryPath a \<le> EntryPath b) (sort_Slice failure_less xs)"
proof -
  have "sorted_wrt (\<lambda>a b. \<not> failure_less b a) (sort_Slice failure_less xs)"
    by (rule sorted_sort_Slice) (auto simp: failure_less_def)
  then show ?thesis by (simp add: failure_less_def not_less)
qed

lemma sorted_entries:
  "sorted_wrt (\<lambda>a b. (isDir b \<longrightarrow> isDir a) \<and> (isDir a = isDir b \<longrightarrow> Name a \<le> Name b))
     (sort_Slice entry_less xs)"
proof -
  have "sorted_wrt (\<lambda>a b. \<not> entry_less b a) (sort_Slice entry_less xs)"
    by (rule sorted_sort_Slice) (auto simp: entry_less_def split: if_splits)
  moreover have "\<And>a b. \<not> entry_less b a \<longleftrightarrow>
      (isDir b \<longrightarrow> isDir a) \<and> (isDir a = isDir b \<longrightarrow> Name a \<le> Name b)"
    by (auto simp: entry_less_def)
  ultimately show ?thesis by simp
qed

text \<open>
  What \<open>Build\<close> does return, for every builder whose \<open>FailedEntries\<close> slice lies within its
  array: the accumulated summary with \<open>TotalDirCount\<close> incremented, \<open>MaxModTime\<close> set to
  \<open>dirModTime\<close> when there are no entries, and the given \<open>IncompleteReason\<close>; all
  failed entries, sorted by path; and the entries, directories first, each group sorted
  by name.
\<close>

lemma Build_manifest:
  assumes wf: "s_len (FailedEntries (summary b))
                 \<le> length (arrays h (s_ptr (FailedEntries (summary b))))"
  shows "Summary (snd (snd (Build mx dirModTime reason (h, b))))
      = (summary b)\<lparr>TotalDirCount := wrap64 (TotalDirCount (summary b) + 1),
           MaxModTime := (if entries b = [] then dirModTime else MaxModTime (summary b)),
           IncompleteReason := reason\<rparr>"
    and "manifest_FailedEntries (Build mx dirModTime reason (h, b))
      = sort_Slice failure_less (slice_elems h (FailedEntries (summary b)))"
    and "sorted_wrt (\<lambda>x y. EntryPath x \<le> EntryPath y)
           (manifest_FailedEntries (Build mx dirModTime reason (h, b)))"
    and "mset (Entries (snd (snd (Build mx dirModTime reason (h, b))))) = mset (entries b)"
    and "sorted_wrt (\<lambda>x y. (isDir y \<longrightarrow> isDir x) \<and> (isDir x = isDir y \<longrightarrow> Name x \<le> Name y))
           (Entries (snd (snd (Build mx dirModTime reason (h, b)))))"
proof -
  show "Summary (snd (snd (Build mx dirModTime reason (h, b))))
      = (summary b)\<lparr>TotalDirCount := wrap64 (TotalDirCount (summary b) + 1),
           MaxModTime := (if entries b = [] then dirModTime else MaxModTime (summary b)),
           IncompleteReason := reason\<rparr>"
    by (simp add: Build_def Let_def split: prod.splits)
  have len: "length (sort_Slice failure_less xs) = length xs" for xs
    using mset_sort_Slice [of failure_less xs] by (metis size_mset)
  show fe: "manifest_FailedEntries (Build mx dirModTime reason (h, b))
      = sort_Slice failure_less (slice_elems h (FailedEntries (summary b)))"
    using wf
    by (simp add: manifest_FailedEntries_def Build_def Let_def sortedTopFailures_def
        sort_in_place_def slice_elems_def len)
  show "sorted_wrt (\<lambda>x y. EntryPath x \<le> EntryPath y)
           (manifest_FailedEntries (Build mx dirModTime reason (h, b)))"
    unfolding fe by (rule sorted_failures)
  have e: "Entries (snd (snd (Build mx dirModTime reason (h, b))))
      = sort_Slice entry_less (entries b)"
    by (simp add: Build_def Let_def split: prod.splits)
  show "mset (Entries (snd (snd (Build mx dirModTime reason (h, b))))) = mset (entries b)"
    unfolding e by (rule mset_sort_Slice)
  show "sorted_wrt (\<lambda>x y. (isDir y \<longrightarrow> isDir x) \<and> (isDir x = isDir y \<longrightarrow> Name x \<le> Name y))
           (Entries (snd (snd (Build mx dirModTime reason (h, b)))))"
    unfolding e by (rule sorted_entries)
qed

text \<open>
  For every builder, the manifest's \<open>FailedEntries\<close> header is the builder's header from
  before the call, and only the header left in the builder is cut.
\<close>

lemma Build_FailedEntries_headers:
  "FailedEntries (Summary (snd (snd (Build mx dirModTime reason (h, b)))))
     = FailedEntries (summary b)
   \<and> FailedEntries (summary (fst (snd (Build mx dirModTime reason (h, b)))))
     = (if s_len (FailedEntries (summary b)) > mx
        then (FailedEntries (summary b))\<lparr>s_len := mx\<rparr> else FailedEntries (summary b))"
  by (simp add: Build_def sortedTopFailures_def Let_def)

text \<open>
  C4 (the code at a failing input): a directory in which eleven entries failed, built with
  \<open>MaxFailedEntriesPerDirectorySummary = 10\<close>. The summary of the manifest that \<open>Build\<close>
  returns lists all eleven failures, sorted by path: its slice header was copied before
  \<open>sortedTopFailures\<close> ran, shares the sorted array, and keeps the old length; only the
  builder's own header is cut to ten. The claim asks for at most ten records.
\<close>

theorem Build_keeps_eleven_failures:
  "map EntryPath (manifest_FailedEntries
      (Build 10 0 [] (run_builder double_capacity empty_store eleven_failures)))
   = [''f01'', ''f02'', ''f03'', ''f04'', ''f05'', ''f06'', ''f07'', ''f08'', ''f09'',
      ''f10'', ''f11'']
   \<and> length (manifest_FailedEntries
      (Build 10 0 [] (run_builder double_capacity empty_store eleven_failures))) = 11
   \<and> \<not> length (manifest_FailedEntries
      (Build 10 0 [] (run_builder double_capacity empty_store eleven_failures))) \<le> 10"
  by code_simp

subsection \<open>Merged index\<close>

lemma takes_precedence_iff: "takes_precedence c r \<longleftrightarrow> \<not> not_preferred_to c r"
  by (auto simp: takes_precedence_def not_preferred_to_def)

lemma not_preferred_to_refl: "not_preferred_to a a"
  by (simp add: not_preferred_to_def)

lemma not_preferred_to_trans:
  "not_preferred_to a b \<Longrightarrow> not_preferred_to b c \<Longrightarrow> not_preferred_to a c"
  by (auto simp: not_preferred_to_def)

lemma not_preferred_to_total: "not_preferred_to a b \<or> not_preferred_to b a"
  by (auto simp: not_preferred_to_def)

lemma not_preferred_to_antisym:
  "not_preferred_to a b \<Longrightarrow> not_preferred_to b a \<Longrightarrow>
   GetTimestampSeconds a = GetTimestampSeconds b \<and> GetDeleted a = GetDeleted b
   \<and> GetPackBlobID a = GetPackBlobID b"
  by (auto simp: not_preferred_to_def)

lemma candidates_Nil: "candidates [] k = []"
  by (simp add: candidates_def map_filter_simps)

lemma candidates_Cons:
  "candidates (ndx # m) k =
     (case fst (GetInfo ndx k) of None \<Rightarrow> candidates m k | Some i \<Rightarrow> i # candidates m k)"
  by (simp add: candidates_def map_filter_simps split: option.splits)

lemma set_candidates:
  "set (candidates m k) = {i. \<exists>ndx\<in>set m. fst (GetInfo ndx k) = Some i}"
  by (induction m) (auto simp: candidates_Nil candidates_Cons split: option.splits)

lemma Merged_GetInfo_from_max:
  "\<forall>ndx\<in>set m. snd (GetInfo ndx k) = None \<Longrightarrow>
   \<exists>r. Merged_GetInfo_from m k best = (r, None)
     \<and> (case r of
          None \<Rightarrow> best = None \<and> candidates m k = []
        | Some x \<Rightarrow> (x \<in> set (candidates m k) \<or> best = Some x)
            \<and> (\<forall>c\<in>set (candidates m k). not_preferred_to c x)
            \<and> (\<forall>b. best = Some b \<longrightarrow> not_preferred_to b x))"
proof (induction m arbitrary: best)
  case Nil
  then show ?case
    by (cases best) (simp_all add: candidates_Nil not_preferred_to_refl)
next
  case (Cons ndx m)
  from Cons.prems have noerr: "snd (GetInfo ndx k) = None"
    and rest: "\<forall>ndx\<in>set m. snd (GetInfo ndx k) = None" by simp_all
  show ?case
  proof (cases "fst (GetInfo ndx k)")
    case None
    with noerr have g: "GetInfo ndx k = (None, None)" by (cases "GetInfo ndx k") simp
    from None have cn: "candidates (ndx # m) k = candidates m k"
      by (simp add: candidates_Cons)
    from Cons.IH [OF rest, of best] g show ?thesis
      unfolding cn by simp
  next
    case (Some i)
    with noerr have g: "GetInfo ndx k = (Some i, None)" by (cases "GetInfo ndx k") simp
    let ?best = "case best of None \<Rightarrow> Some i
                 | Some b \<Rightarrow> if takes_precedence i b then Some i else Some b"
    from Cons.IH [OF rest, of ?best] obtain r where
      run: "Merged_GetInfo_from m k ?best = (r, None)"
      and rprop: "case r of
          None \<Rightarrow> ?best = None \<and> candidates m k = []
        | Some x \<Rightarrow> (x \<in> set (candidates m k) \<or> ?best = Some x)
            \<and> (\<forall>c\<in>set (candidates m k). not_preferred_to c x)
            \<and> (\<forall>b. ?best = Some b \<longrightarrow> not_preferred_to b x)"
      by blast
    have bne: "?best \<noteq> None" by (cases best) auto
    with rprop obtain x where r: "r = Some x" by (cases r) auto
    from rprop r have
      mem: "x \<in> set (candidates m k) \<or> ?best = Some x"
      and mx: "\<forall>c\<in>set (candidates m k). not_preferred_to c x"
      and bx: "\<forall>b. ?best = Some b \<longrightarrow> not_preferred_to b x"
      by simp_all
    have ix: "not_preferred_to i x"
    proof (cases best)
      case None
      with bx show ?thesis by simp
    next
      case (Some b)
      show ?thesis
      proof (cases "takes_precedence i b")
        case True
        with Some bx show ?thesis by simp
      next
        case False
        with Some bx have "not_preferred_to b x" by simp
        moreover from False have "not_preferred_to i b" by (simp add: takes_precedence_iff)
        ultimately show ?thesis by (blast intro: not_preferred_to_trans)
      qed
    qed
    have oldx: "\<forall>b. best = Some b \<longrightarrow> not_preferred_to b x"
    proof (intro allI impI)
      fix b assume b: "best = Some b"
      show "not_preferred_to b x"
      proof (cases "takes_precedence i b")
        case True
        then have "not_preferred_to b i"
          using not_preferred_to_total [of b i] by (simp add: takes_precedence_iff)
        with ix show ?thesis by (blast intro: not_preferred_to_trans)
      next
        case False
        with b bx show ?thesis by simp
      qed
    qed
    have memx: "x \<in> set (candidates (ndx # m) k) \<or> best = Some x"
    proof (cases best)
      case None
      with mem Some show ?thesis by (auto simp: candidates_Cons)
    next
      case (Some b)
      with mem \<open>fst (GetInfo ndx k) = Some i\<close> show ?thesis
        by (auto simp: candidates_Cons split: if_splits)
    qed
    from Some have cc: "candidates (ndx # m) k = i # candidates m k"
      by (simp add: candidates_Cons)
    from run g have "Merged_GetInfo_from (ndx # m) k best = (Some x, None)"
      by (simp add: r)
    with memx mx ix oldx show ?thesis
      by (intro exI [of _ "Some x"]) (simp add: cc)
  qed
qed

text \<open>
  C1 (as stated, refuted), at two inputs. (1) Two indexes hold the content in the same
  pack blob with the same timestamp, neither deleted, at offsets 11 and 22: the three
  rules do not separate the entries, and the merged index returns the entry of whichever
  index comes first, so the result changes with the order of the indexes. (2) A merged
  index over two indexes that hold the content and one whose \<open>GetInfo\<close> fails returns
  the error and no entry.
\<close>

theorem Merged_GetInfo_order_counterexample:
  "mset [tied_ib, tied_ia] = mset [tied_ia, tied_ib]
   \<and> candidates [tied_ia, tied_ib] ''aabbcc''
       = [InfoStruct ''aabbcc'' 1 ''xx'' 11 False, InfoStruct ''aabbcc'' 1 ''xx'' 22 False]
   \<and> Merged_GetInfo [tied_ia, tied_ib] ''aabbcc''
       = (Some (InfoStruct ''aabbcc'' 1 ''xx'' 11 False), None)
   \<and> Merged_GetInfo [tied_ib, tied_ia] ''aabbcc''
       = (Some (InfoStruct ''aabbcc'' 1 ''xx'' 22 False), None)
   \<and> Merged_GetInfo [tied_ib, tied_ia] ''aabbcc'' \<noteq> Merged_GetInfo [tied_ia, tied_ib] ''aabbcc''
   \<and> candidates [test_i1, test_i2, failingIndex] ''aabbcc''
       = [InfoStruct ''aabbcc'' 1 ''xx'' 11 False, InfoStruct ''aabbcc'' 1 ''yy'' 33 False]
   \<and> Merged_GetInfo [test_i1, test_i2, failingIndex] ''aabbcc''
       = (None, Some (Wrapped (Errorf ''some error'') ''error getting id from index shard''))"
  by (simp add: Merged_GetInfo_def candidates_def map_filter_simps tied_ia_def tied_ib_def
      test_i1_def test_i2_def failingIndex_def indexWithItems_def InfoStruct_def
      takes_precedence_def)

text \<open>
  C1 (amended): for every merged index whose underlying indexes answer the lookup
  without error, and every content ID that at least one of them holds (in particular one
  that several hold), \<open>GetInfo\<close> returns one of the candidate entries, chosen by the
  precedence: no candidate is newer, at its timestamp it is deleted only if every
  candidate of that timestamp is, and among the candidates of its timestamp and deleted
  flag it has the greatest pack blob ID. For every permutation of the underlying indexes
  the result has the same timestamp, deleted flag and pack blob ID; it is the same entry
  whenever no two different candidates agree in all three.
\<close>

theorem Merged_GetInfo_precedence:
  assumes noerr: "\<forall>ndx\<in>set m. snd (GetInfo ndx k) = None"
    and perm: "mset m' = mset m"
    and present: "candidates m k \<noteq> []"
  shows "\<exists>r r'. Merged_GetInfo m k = (Some r, None) \<and> Merged_GetInfo m' k = (Some r', None)
     \<and> r \<in> set (candidates m k)
     \<and> (\<forall>c\<in>set (candidates m k). not_preferred_to c r)
     \<and> GetTimestampSeconds r' = GetTimestampSeconds r \<and> GetDeleted r' = GetDeleted r
     \<and> GetPackBlobID r' = GetPackBlobID r
     \<and> ((\<forall>a\<in>set (candidates m k). \<forall>b\<in>set (candidates m k).
            GetTimestampSeconds a = GetTimestampSeconds b \<and> GetDeleted a = GetDeleted b
            \<and> GetPackBlobID a = GetPackBlobID b \<longrightarrow> a = b)
          \<longrightarrow> r' = r)"
proof -
  from perm have sets: "set m' = set m" by (rule mset_eq_setD)
  then have cands: "set (candidates m' k) = set (candidates m k)"
    by (simp add: set_candidates)
  from noerr sets have noerr': "\<forall>ndx\<in>set m'. snd (GetInfo ndx k) = None" by simp
  from present cands have present': "candidates m' k \<noteq> []" by auto
  from Merged_GetInfo_from_max [OF noerr, of None] present
  obtain r where r: "Merged_GetInfo m k = (Some r, None)"
    and rin: "r \<in> set (candidates m k)"
    and rmax: "\<forall>c\<in>set (candidates m k). not_preferred_to c r"
    by (auto simp: Merged_GetInfo_def split: option.splits)
  from Merged_GetInfo_from_max [OF noerr', of None] present'
  obtain r' where r': "Merged_GetInfo m' k = (Some r', None)"
    and rin': "r' \<in> set (candidates m' k)"
    and rmax': "\<forall>c\<in>set (candidates m' k). not_preferred_to c r'"
    by (auto simp: Merged_GetInfo_def split: option.splits)
  from rin' cands have rin2: "r' \<in> set (candidates m k)" by simp
  from rmax rin2 have a: "not_preferred_to r' r" by blast
  from rmax' rin cands have b: "not_preferred_to r r'" by blast
  note key = not_preferred_to_antisym [OF a b]
  have det: "(\<forall>a\<in>set (candidates m k). \<forall>b\<in>set (candidates m k).
            GetTimestampSeconds a = GetTimestampSeconds b \<and> GetDeleted a = GetDeleted b
            \<and> GetPackBlobID a = GetPackBlobID b \<longrightarrow> a = b)
          \<longrightarrow> r' = r"
    using key rin rin2 by blast
  from r r' rin rmax key det show ?thesis by blast
qed

theorem Merged_GetInfo_precedence_witness:
  "snd (GetInfo test_i1 ''aabbcc'') = None \<and> snd (GetInfo test_i2 ''aabbcc'') = None
   \<and> snd (GetInfo test_i3 ''aabbcc'') = None
   \<and> mset [test_i3, test_i1, test_i2] = mset [test_i1, test_i2, test_i3]
   \<and> candidates [test_i1, test_i2, test_i3] ''aabbcc'' \<noteq> []
   \<and> Merged_GetInfo [test_i3, test_i1, test_i2] ''aabbcc''
       = Merged_GetInfo [test_i1, test_i2, test_i3] ''aabbcc''
   \<and> Merged_GetInfo [test_i1, test_i2, test_i3] ''aabbcc''
       = (Some (InfoStruct ''aabbcc'' 1 ''zz'' 22 False), None)"
proof -
  let ?m = "[test_i1, test_i2, test_i3]" and ?m' = "[test_i3, test_i1, test_i2]"
  have noerr: "\<forall>ndx\<in>set ?m. snd (GetInfo ndx ''aabbcc'') = None"
    by (simp add: test_i1_def test_i2_def test_i3_def indexWithItems_def)
  have perm: "mset ?m' = mset ?m" by simp
  have c: "candidates ?m ''aabbcc''
      = [InfoStruct ''aabbcc'' 1 ''xx'' 11 False, InfoStruct ''aabbcc'' 1 ''yy'' 33 False,
         InfoStruct ''aabbcc'' 1 ''zz'' 22 False]"
    by (simp add: candidates_def map_filter_simps test_i1_def test_i2_def test_i3_def
        indexWithItems_def InfoStruct_def)
  then have present: "candidates ?m ''aabbcc'' \<noteq> []" by simp
  have det: "\<forall>a\<in>set (candidates ?m ''aabbcc''). \<forall>b\<in>set (candidates ?m ''aabbcc'').
            GetTimestampSeconds a = GetTimestampSeconds b \<and> GetDeleted a = GetDeleted b
            \<and> GetPackBlobID a = GetPackBlobID b \<longrightarrow> a = b"
    unfolding c by (simp add: InfoStruct_def)
  from Merged_GetInfo_precedence [OF noerr perm present] det
  have same: "Merged_GetInfo ?m' ''aabbcc'' = Merged_GetInfo ?m ''aabbcc''"
    by auto
  have val: "Merged_GetInfo ?m ''aabbcc'' = (Some (InfoStruct ''aabbcc'' 1 ''zz'' 22 False), None)"
    by (simp add: Merged_GetInfo_def test_i1_def test_i2_def test_i3_def indexWithItems_def
        InfoStruct_def takes_precedence_def)
  from noerr perm present same val show ?thesis by simp
qed

end
